theory Spec2Isabelle
  imports Main "HOL-Library.AList"
begin

section \<open>Canonical data model (ai-adapter.ts)\<close>

text \<open>
  The value of a field typed \<open>any\<close> that holds structured tool arguments or a schema.
  \<open>JSON.parse\<close> and \<open>JSON.stringify\<close> belong to the platform and are parameters of
  the functions that call them.
\<close>

datatype json =
    JNull
  | JBool bool
  | JNum int
  | JStr string
  | JArr "json list"
  | JObj "(string \<times> json) list"

datatype role = User | Assistant | Tool

text \<open>The shape of one element of \<open>AIMessage.tool_calls\<close> as the agent loop builds it.\<close>

record fn_ref =
  fn_name :: string
  fn_arguments :: string

record tool_call_ref =
  ref_id :: string
  ref_type :: string
  ref_function :: fn_ref

record ai_message =
  msg_role :: role
  msg_content :: "string option"
  msg_tool_calls :: "tool_call_ref list option"
  msg_tool_call_id :: "string option"

record ai_tool =
  tool_name :: string
  tool_description :: string
  tool_input_schema :: json

record tool_call =
  tc_id :: string
  tc_name :: string
  tc_input :: json

record content_block =
  block_type :: string
  block_text :: "string option"

record tool_execution_response =
  resp_content :: "content_block list option"
  resp_details :: "json option"
  resp_error :: "string option"

datatype ai_event =
    MessageStart
  | MessageUpdate "content_block list"
  | ToolUse tool_call
  | ToolResult tool_call tool_execution_response
  | MessageComplete string
  | ErrorEvent string

text \<open>
  How an awaited call ends: with a value, with a thrown error (a rejection), or never
  (a promise that nothing settles).
\<close>

datatype 'a outcome = Returns 'a | Throws string | Pending

text \<open>
  A value thrown by the provider's client or by the engine: \<open>null\<close> or \<open>undefined\<close>,
  or any other value, given by its \<open>message\<close> (empty when it has none).
\<close>

datatype thrown = Nullish | Threw string

text \<open>
  A run of the body of a \<open>try\<close> block: the events passed to \<open>onEvent\<close> so far, and
  the value thrown when the body threw (\<open>None\<close> when it ran to its end).
\<close>

type_synonym run = "ai_event list \<times> thrown option"

text \<open>\<open>error.message || "Unknown error occurred"\<close>: a missing or empty message is falsy.\<close>

definition error_text :: "string \<Rightarrow> string" where
  "error_text m = (if m = [] then ''Unknown error occurred'' else m)"

text \<open>
  The text of the engine's error for reading a property of \<open>null\<close> or \<open>undefined\<close>; the
  model fixes one.
\<close>

definition nullish_error :: string where
  "nullish_error = ''error is undefined''"

text \<open>
  The \<open>try\<close> with the \<open>catch\<close> clause shared by the three adapters: the events of the
  call and how the call ends. The clause reads \<open>error.message\<close> to build the error
  event: for a value that is not \<open>null\<close> or \<open>undefined\<close> it emits the event and the call
  returns; for \<open>null\<close> or \<open>undefined\<close> the read throws inside the clause, no event is
  emitted and the call rejects.
\<close>

definition catch_error :: "run \<Rightarrow> ai_event list \<times> unit outcome" where
  "catch_error r =
     (case r of
        (evs, None) \<Rightarrow> (evs, Returns ())
      | (evs, Some Nullish) \<Rightarrow> (evs, Throws nullish_error)
      | (evs, Some (Threw m)) \<Rightarrow> (evs @ [ErrorEvent (error_text m)], Returns ()))"

text \<open>\<open>s || ""\<close> on an optional string.\<close>

definition or_empty :: "string option \<Rightarrow> string" where
  "or_empty s = (case s of None \<Rightarrow> [] | Some t \<Rightarrow> t)"

text \<open>Truthiness of an optional string: present and not empty.\<close>

definition truthy :: "string option \<Rightarrow> bool" where
  "truthy s = (case s of None \<Rightarrow> False | Some t \<Rightarrow> t \<noteq> [])"

definition text_block :: "string \<Rightarrow> content_block" where
  "text_block t = \<lparr>block_type = ''text'', block_text = Some t\<rparr>"

text \<open>\<open>name.replace(/\./g, "_")\<close> (the same helper in OpenAIAdapter and in ToolRegistry).\<close>

definition normalizeToolName :: "string \<Rightarrow> string" where
  "normalizeToolName name = map (\<lambda>c. if c = CHR ''.'' then CHR ''_'' else c) name"

section \<open>AnthropicAdapter\<close>

datatype anthropic_block =
    TextBlock string
  | ToolUseBlock string string json
  | OtherBlock string

record anthropic_message =
  am_role :: role
  am_content :: string

record anthropic_request =
  ar_model :: string
  ar_max_tokens :: nat
  ar_system :: string
  ar_messages :: "anthropic_message list"
  ar_tools :: "ai_tool list option"

text \<open>
  The request of \<open>client.messages.create\<close>. The cast \<open>m.role as "user" | "assistant"\<close>
  is a type assertion: at run time the role is passed on as it is.
\<close>

definition anthropic_message_of :: "ai_message \<Rightarrow> anthropic_message" where
  "anthropic_message_of m = \<lparr>am_role = msg_role m, am_content = or_empty (msg_content m)\<rparr>"

definition anthropic_request_of ::
  "ai_message list \<Rightarrow> ai_tool list \<Rightarrow> string \<Rightarrow> anthropic_request" where
  "anthropic_request_of messages tools systemPrompt =
     \<lparr>ar_model = ''claude-sonnet-4-20250514'',
      ar_max_tokens = 4096,
      ar_system = systemPrompt,
      ar_messages = map anthropic_message_of messages,
      ar_tools = (if length tools > 0 then Some tools else None)\<rparr>"

text \<open>The loop over \<open>response.content\<close>: text is concatenated, tool invocations collected.\<close>

fun anthropic_blocks :: "string \<times> tool_call list \<Rightarrow> anthropic_block list \<Rightarrow> string \<times> tool_call list" where
  "anthropic_blocks acc [] = acc"
| "anthropic_blocks (textContent, toolCalls) (TextBlock t # bs) =
     anthropic_blocks (textContent @ t, toolCalls) bs"
| "anthropic_blocks (textContent, toolCalls) (ToolUseBlock i n inp # bs) =
     anthropic_blocks (textContent, toolCalls @ [\<lparr>tc_id = i, tc_name = n, tc_input = inp\<rparr>]) bs"
| "anthropic_blocks (textContent, toolCalls) (OtherBlock k # bs) =
     anthropic_blocks (textContent, toolCalls) bs"

definition AnthropicAdapter_body ::
  "(anthropic_request \<Rightarrow> thrown + anthropic_block list) \<Rightarrow>
   ai_message list \<Rightarrow> ai_tool list \<Rightarrow> string \<Rightarrow> run" where
  "AnthropicAdapter_body create messages tools systemPrompt =
     (case create (anthropic_request_of messages tools systemPrompt) of
        Inl e \<Rightarrow> ([MessageStart], Some e)
      | Inr content \<Rightarrow>
          (case anthropic_blocks ([], []) content of
             (textContent, toolCalls) \<Rightarrow>
               ([MessageStart]
                @ (if textContent \<noteq> [] then [MessageUpdate [text_block textContent]] else [])
                @ (if length toolCalls > 0 then map ToolUse toolCalls
                   else [MessageComplete textContent]),
                None)))"

definition AnthropicAdapter_sendMessage ::
  "(anthropic_request \<Rightarrow> thrown + anthropic_block list) \<Rightarrow>
   ai_message list \<Rightarrow> ai_tool list \<Rightarrow> string \<Rightarrow> ai_event list" where
  "AnthropicAdapter_sendMessage create messages tools systemPrompt =
     fst (catch_error (AnthropicAdapter_body create messages tools systemPrompt))"

text \<open>How the call of \<open>sendMessage\<close> ends.\<close>

definition AnthropicAdapter_settles ::
  "(anthropic_request \<Rightarrow> thrown + anthropic_block list) \<Rightarrow>
   ai_message list \<Rightarrow> ai_tool list \<Rightarrow> string \<Rightarrow> unit outcome" where
  "AnthropicAdapter_settles create messages tools systemPrompt =
     snd (catch_error (AnthropicAdapter_body create messages tools systemPrompt))"

section \<open>OpenAIAdapter\<close>

record openai_function =
  of_name :: string
  of_description :: string
  of_parameters :: json

record openai_tool =
  ot_type :: string
  ot_function :: openai_function

datatype openai_message =
    SystemMessage string
  | ToolMessage string "string option"
  | AssistantCalls "string option" "tool_call_ref list"
  | PlainMessage role string

record openai_request =
  or_model :: string
  or_messages :: "openai_message list"
  or_tools :: "openai_tool list option"
  or_stream :: bool

text \<open>One streamed tool-call fragment; \<open>function?.name\<close> and \<open>function?.arguments\<close> are optional.\<close>

record tool_call_delta =
  d_index :: nat
  d_id :: "string option"
  d_name :: "string option"
  d_arguments :: "string option"

record delta =
  delta_content :: "string option"
  delta_tool_calls :: "tool_call_delta list option"

text \<open>A chunk is \<open>chunk.choices[0]?.delta\<close>: \<open>None\<close> when the chunk has no delta.\<close>

type_synonym chunk = "delta option"

text \<open>A stream: the chunks it yields, then the error it throws, if it throws one.\<close>

type_synonym openai_stream = "chunk list \<times> thrown option"

record acc_call =
  acc_id :: string
  acc_type :: string
  acc_name :: string
  acc_arguments :: string

text \<open>
  \<open>toolCalls\<close> is a JavaScript array written by index: writing past the end leaves holes,
  which read as \<open>undefined\<close>. A hole is \<open>None\<close>.
\<close>

definition set_at :: "'a option list \<Rightarrow> nat \<Rightarrow> 'a \<Rightarrow> 'a option list" where
  "set_at xs i v =
     (if i < length xs then xs[i := Some v]
      else xs @ replicate (i - length xs) None @ [Some v])"

definition get_at :: "'a option list \<Rightarrow> nat \<Rightarrow> 'a option" where
  "get_at xs i = (if i < length xs then xs ! i else None)"

definition apply_delta :: "acc_call option list \<Rightarrow> tool_call_delta \<Rightarrow> acc_call option list" where
  "apply_delta toolCalls d =
     (let index = d_index d;
          fresh = (case get_at toolCalls index of
                     None \<Rightarrow> \<lparr>acc_id = or_empty (d_id d), acc_type = ''function'',
                               acc_name = [], acc_arguments = []\<rparr>
                   | Some a \<Rightarrow> a);
          a1 = (if truthy (d_id d) then fresh\<lparr>acc_id := or_empty (d_id d)\<rparr> else fresh);
          a2 = (if truthy (d_name d) then a1\<lparr>acc_name := acc_name a1 @ or_empty (d_name d)\<rparr> else a1);
          a3 = (if truthy (d_arguments d)
                then a2\<lparr>acc_arguments := acc_arguments a2 @ or_empty (d_arguments d)\<rparr> else a2)
      in set_at toolCalls index a3)"

text \<open>The state of the streaming loop: accumulated text, tool calls, events emitted.\<close>

type_synonym stream_state = "string \<times> acc_call option list \<times> ai_event list"

definition openai_chunk :: "stream_state \<Rightarrow> chunk \<Rightarrow> stream_state" where
  "openai_chunk st ch =
     (case st of (accumulatedContent, toolCalls, evs) \<Rightarrow>
        (case ch of
           None \<Rightarrow> st
         | Some dl \<Rightarrow>
             (let content' = (if truthy (delta_content dl)
                              then accumulatedContent @ or_empty (delta_content dl)
                              else accumulatedContent);
                  evs' = (if truthy (delta_content dl)
                          then evs @ [MessageUpdate [text_block content']] else evs);
                  toolCalls' = (case delta_tool_calls dl of
                                  None \<Rightarrow> toolCalls
                                | Some ds \<Rightarrow> foldl apply_delta toolCalls ds)
              in (content', toolCalls', evs'))))"

text \<open>
  The error messages of the engine for a read through \<open>undefined\<close>; their text is the
  engine's, the model fixes one.
\<close>

definition undefined_toolCall :: string where
  "undefined_toolCall = ''toolCall is undefined''"

definition undefined_lastMessage :: string where
  "undefined_lastMessage = ''lastMessage is undefined''"

text \<open>\<open>this.toolNameMap.get(n) || n\<close>.\<close>

definition original_name :: "(string \<rightharpoonup> string) \<Rightarrow> string \<Rightarrow> string" where
  "original_name toolNameMap n = (if truthy (toolNameMap n) then or_empty (toolNameMap n) else n)"

text \<open>
  The loop over the accumulated tool calls once the stream has ended. A hole throws on
  \<open>toolCall.function\<close>; \<open>JSON.parse\<close> (\<open>Inl\<close> is its SyntaxError) throws before the
  event of that call is built. The events of earlier calls have been emitted by then.
\<close>

fun openai_tool_uses ::
  "(string \<Rightarrow> string + json) \<Rightarrow> (string \<rightharpoonup> string) \<Rightarrow> acc_call option list \<Rightarrow> run" where
  "openai_tool_uses parse toolNameMap [] = ([], None)"
| "openai_tool_uses parse toolNameMap (None # rest) = ([], Some (Threw undefined_toolCall))"
| "openai_tool_uses parse toolNameMap (Some a # rest) =
     (case parse (acc_arguments a) of
        Inl e \<Rightarrow> ([], Some (Threw e))
      | Inr inp \<Rightarrow>
          (case openai_tool_uses parse toolNameMap rest of
             (evs, r) \<Rightarrow>
               (ToolUse \<lparr>tc_id = acc_id a,
                         tc_name = original_name toolNameMap (acc_name a),
                         tc_input = inp\<rparr> # evs, r)))"

text \<open>\<open>toolNameMap.clear()\<close> followed by one \<open>set\<close> per tool, in catalog order.\<close>

definition build_toolNameMap :: "ai_tool list \<Rightarrow> (string \<rightharpoonup> string)" where
  "build_toolNameMap tools =
     foldl (\<lambda>m t. m(normalizeToolName (tool_name t) \<mapsto> tool_name t)) Map.empty tools"

definition openai_tool_of :: "ai_tool \<Rightarrow> openai_tool" where
  "openai_tool_of t =
     \<lparr>ot_type = ''function'',
      ot_function = \<lparr>of_name = normalizeToolName (tool_name t),
                     of_description = tool_description t,
                     of_parameters = tool_input_schema t\<rparr>\<rparr>"

definition openai_message_of :: "ai_message \<Rightarrow> openai_message" where
  "openai_message_of m =
     (if msg_role m = Tool then ToolMessage (or_empty (msg_content m)) (msg_tool_call_id m)
      else (case (msg_role m, msg_tool_calls m) of
              (Assistant, Some calls) \<Rightarrow> AssistantCalls (msg_content m) calls
            | _ \<Rightarrow> PlainMessage (msg_role m) (or_empty (msg_content m))))"

definition openai_request_of ::
  "string \<Rightarrow> ai_message list \<Rightarrow> ai_tool list \<Rightarrow> string \<Rightarrow> openai_request" where
  "openai_request_of model messages tools systemPrompt =
     \<lparr>or_model = model,
      or_messages = SystemMessage systemPrompt # map openai_message_of messages,
      or_tools = (if length tools > 0 then Some (map openai_tool_of tools) else None),
      or_stream = True\<rparr>"

text \<open>
  The body of \<open>sendMessage\<close>, from the state \<open>toolNameMap\<close> of the adapter before the
  call (which \<open>clear\<close> discards) to the run and the map after the call.
\<close>

definition OpenAIAdapter_body ::
  "(string \<Rightarrow> string + json) \<Rightarrow> (openai_request \<Rightarrow> thrown + openai_stream) \<Rightarrow> string \<Rightarrow>
   (string \<rightharpoonup> string) \<Rightarrow> ai_message list \<Rightarrow> ai_tool list \<Rightarrow> string \<Rightarrow>
   run \<times> (string \<rightharpoonup> string)" where
  "OpenAIAdapter_body parse create model toolNameMap0 messages tools systemPrompt =
     (let toolNameMap = build_toolNameMap tools
      in (case create (openai_request_of model messages tools systemPrompt) of
            Inl e \<Rightarrow> (([MessageStart], Some e), toolNameMap)
          | Inr (chunks, thrown) \<Rightarrow>
              (case foldl openai_chunk ([], [], [MessageStart]) chunks of
                 (accumulatedContent, toolCalls, evs) \<Rightarrow>
                   (case thrown of
                      Some e \<Rightarrow> ((evs, Some e), toolNameMap)
                    | None \<Rightarrow>
                        (if length toolCalls > 0
                         then (case openai_tool_uses parse toolNameMap toolCalls of
                                 (uses, r) \<Rightarrow> ((evs @ uses, r), toolNameMap))
                         else ((evs @ [MessageComplete accumulatedContent], None),
                               toolNameMap))))))"

definition OpenAIAdapter_sendMessage ::
  "(string \<Rightarrow> string + json) \<Rightarrow> (openai_request \<Rightarrow> thrown + openai_stream) \<Rightarrow> string \<Rightarrow>
   (string \<rightharpoonup> string) \<Rightarrow> ai_message list \<Rightarrow> ai_tool list \<Rightarrow> string \<Rightarrow>
   ai_event list \<times> (string \<rightharpoonup> string)" where
  "OpenAIAdapter_sendMessage parse create model toolNameMap0 messages tools systemPrompt =
     (case OpenAIAdapter_body parse create model toolNameMap0 messages tools systemPrompt of
        (r, toolNameMap) \<Rightarrow> (fst (catch_error r), toolNameMap))"

definition OpenAIAdapter_settles ::
  "(string \<Rightarrow> string + json) \<Rightarrow> (openai_request \<Rightarrow> thrown + openai_stream) \<Rightarrow> string \<Rightarrow>
   (string \<rightharpoonup> string) \<Rightarrow> ai_message list \<Rightarrow> ai_tool list \<Rightarrow> string \<Rightarrow> unit outcome" where
  "OpenAIAdapter_settles parse create model toolNameMap0 messages tools systemPrompt =
     snd (catch_error
            (fst (OpenAIAdapter_body parse create model toolNameMap0 messages tools systemPrompt)))"

section \<open>GoogleAdapter\<close>

record google_content =
  gc_role :: string
  gc_parts :: "string list"

record google_request =
  gr_model :: string
  gr_systemInstruction :: string
  gr_history :: "google_content list"
  gr_message :: string

definition google_content_of :: "ai_message \<Rightarrow> google_content" where
  "google_content_of m =
     \<lparr>gc_role = (if msg_role m = User then ''user'' else ''model''),
      gc_parts = [or_empty (msg_content m)]\<rparr>"

definition google_request_of :: "string \<Rightarrow> ai_message list \<Rightarrow> string \<Rightarrow> google_request" where
  "google_request_of model messages systemPrompt =
     \<lparr>gr_model = model,
      gr_systemInstruction = systemPrompt,
      gr_history = map google_content_of (butlast messages),
      gr_message = or_empty (msg_content (last messages))\<rparr>"

text \<open>
  \<open>chat\<close> stands for \<open>startChat\<close>, \<open>sendMessage\<close> and \<open>response.text()\<close> together. With an
  empty history \<open>messages[messages.length - 1]\<close> is \<open>undefined\<close> and reading its content
  throws before the provider is called.
\<close>

definition GoogleAdapter_body ::
  "(google_request \<Rightarrow> thrown + string) \<Rightarrow> string \<Rightarrow>
   ai_message list \<Rightarrow> ai_tool list \<Rightarrow> string \<Rightarrow> run" where
  "GoogleAdapter_body chat model messages tools systemPrompt =
     (if messages = [] then ([MessageStart], Some (Threw undefined_lastMessage))
      else (case chat (google_request_of model messages systemPrompt) of
              Inl e \<Rightarrow> ([MessageStart], Some e)
            | Inr t \<Rightarrow>
                ([MessageStart, MessageUpdate [text_block t], MessageComplete t], None)))"

definition GoogleAdapter_sendMessage ::
  "(google_request \<Rightarrow> thrown + string) \<Rightarrow> string \<Rightarrow>
   ai_message list \<Rightarrow> ai_tool list \<Rightarrow> string \<Rightarrow> ai_event list" where
  "GoogleAdapter_sendMessage chat model messages tools systemPrompt =
     fst (catch_error (GoogleAdapter_body chat model messages tools systemPrompt))"


section \<open>ToolRegistry (background.ts)\<close>

record tool_descriptor =
  td_name :: string
  td_label :: string
  td_description :: string
  td_parameters :: json

record registration =
  reg_extensionId :: string
  reg_descriptor :: tool_descriptor

record tool_execution_request =
  ter_type :: string
  ter_toolName :: string
  ter_params :: json
  ter_toolCallId :: string

record tool_context =
  ctx_url :: "string option"
  ctx_tabId :: "nat option"

record tab =
  tab_url :: "string option"
  tab_id :: "nat option"

record permission_request =
  pr_type :: string
  pr_toolName :: string
  pr_toolDescriptor :: tool_descriptor
  pr_params :: json
  pr_context :: tool_context
  pr_requestId :: string

record permission_response =
  prs_requestId :: string
  prs_granted :: bool
  prs_remember :: bool
  prs_scope :: "string option"

record permission_check =
  pc_allowed :: bool
  pc_requiresPrompt :: bool

text \<open>
  An entry of \<open>pendingPermissionRequests\<close>. Its \<open>resolve\<close> and \<open>reject\<close> are the two
  continuations of one promise, which the model names by a number.
\<close>

record pending_entry =
  pe_promise :: nat
  pe_toolName :: string
  pe_domain :: "string option"

text \<open>
  What the registry does to the world outside it, in the order it does it: events passed
  to the caller's \<open>onEvent\<close>, messages posted to a connected port or sent to the owner of
  a tool, calls of \<open>permissionManager.storePermission\<close>, warnings and errors written to
  the console, and the frame that ends a prompt on its port. (\<open>console.log\<close> is left out.)
\<close>

datatype effect =
    Emit ai_event
  | PortPost nat permission_request
  | OwnerSend string tool_execution_request
  | StorePermission string string "string option"
  | ConsoleWarn string
  | ConsoleError string
  | AgentComplete
  | AgentError string

text \<open>
  An \<open>AIAdapter\<close> as the loop sees it: the events \<open>sendMessage\<close> passes to its callback,
  given the history, the tool catalog and the system prompt. The first argument counts
  the interactions with the world so far, so the same history may be answered
  differently at different times.
\<close>

type_synonym adapter = "nat \<Rightarrow> ai_message list \<Rightarrow> ai_tool list \<Rightarrow> string \<Rightarrow> ai_event list"






text \<open>
  The fields of the class, then the store of settled promises (a promise not in the map
  is unsettled), the number of the next promise, the trace of effects and the count of
  interactions with the world.
\<close>

record tool_registry =
  registeredTools :: "(string \<times> registration) list"
  adapter :: "adapter option"
  conversationHistory :: "ai_message list"
  connectedPorts :: "nat list"
  pendingPermissionRequests :: "string \<rightharpoonup> pending_entry"
  promises :: "nat \<rightharpoonup> string + bool"
  next_promise :: nat
  effects :: "effect list"
  clock :: nat

text \<open>
  What the world answers during one \<open>executeTool\<close>. The class \<open>PermissionManager\<close>
  (package aikit-common) is not among the sources, so the values its methods return
  are given here: \<open>isDomainAwareTool(name)\<close>, \<open>checkPermission(name, context)\<close> and
  \<open>extractDomain(url)\<close>. The other fields are the result of \<open>browser.tabs.query\<close>
  (\<open>Inl\<close> when it rejects), the request id made from \<open>Date.now()\<close> and
  \<open>Math.random()\<close>, the PERMISSION_RESPONSE messages that arrive within the 60 seconds
  after the request, in order, and the answer of the owner to TOOL_EXECUTE (\<open>Inl\<close> the
  message of the error when \<open>browser.runtime.sendMessage\<close> rejects or the answer
  cannot be read).
\<close>

record call_env =
  env_domainAware :: bool
  env_tabs :: "string + tab list"
  env_check :: permission_check
  env_requestId :: string
  env_domain :: "string option"
  env_responses :: "permission_response list"
  env_reply :: "string + tool_execution_response"

definition emit :: "effect \<Rightarrow> tool_registry \<Rightarrow> tool_registry" where
  "emit e s = s\<lparr>effects := effects s @ [e]\<rparr>"

definition push_history :: "ai_message \<Rightarrow> tool_registry \<Rightarrow> tool_registry" where
  "push_history m s = s\<lparr>conversationHistory := conversationHistory s @ [m]\<rparr>"

text \<open>\<open>Map.set\<close> keeps the position of a key that is present and appends a new one.\<close>

definition registerExtension :: "string \<Rightarrow> tool_descriptor list \<Rightarrow> tool_registry \<Rightarrow> tool_registry" where
  "registerExtension extensionId tools s =
     s\<lparr>registeredTools :=
          foldl (\<lambda>m t. AList.update (td_name t)
                          \<lparr>reg_extensionId = extensionId, reg_descriptor = t\<rparr> m)
                (registeredTools s) tools\<rparr>"

definition unregisterExtension :: "string \<Rightarrow> tool_registry \<Rightarrow> tool_registry" where
  "unregisterExtension extensionId s =
     s\<lparr>registeredTools :=
          filter (\<lambda>(toolName, r). reg_extensionId r \<noteq> extensionId) (registeredTools s)\<rparr>"

definition getAITools :: "tool_registry \<Rightarrow> ai_tool list" where
  "getAITools s =
     map (\<lambda>(toolName, r).
            \<lparr>tool_name = td_name (reg_descriptor r),
             tool_description = td_description (reg_descriptor r),
             tool_input_schema = td_parameters (reg_descriptor r)\<rparr>)
         (registeredTools s)"

subsection \<open>The pending permission requests\<close>

text \<open>Settling a promise: the first \<open>resolve\<close> or \<open>reject\<close> wins, a later one does nothing.\<close>

definition settle :: "nat \<Rightarrow> string + bool \<Rightarrow> tool_registry \<Rightarrow> tool_registry" where
  "settle p v s = (if promises s p = None then s\<lparr>promises := (promises s)(p \<mapsto> v)\<rparr> else s)"

text \<open>
  \<open>storePermission\<close> is called and not awaited; the trace records the call. (Its later
  failure would only write to the console.)
\<close>

definition handlePermissionResponse :: "tool_registry \<Rightarrow> permission_response \<Rightarrow> tool_registry" where
  "handlePermissionResponse s response =
     (case pendingPermissionRequests s (prs_requestId response) of
        None \<Rightarrow>
          emit (ConsoleWarn (''No pending permission request for: '' @ prs_requestId response)) s
      | Some pending \<Rightarrow>
          (let s1 = s\<lparr>pendingPermissionRequests :=
                         (pendingPermissionRequests s)(prs_requestId response := None)\<rparr>;
               domain = (if prs_scope response = Some ''domain'' then pe_domain pending else None);
               s2 = (if prs_granted response \<and> prs_remember response
                     then emit (StorePermission (pe_toolName pending) ''always_allow'' domain) s1
                     else if \<not> prs_granted response \<and> prs_remember response
                     then emit (StorePermission (pe_toolName pending) ''always_deny'' domain) s1
                     else s1)
           in settle (pe_promise pending) (Inr (prs_granted response)) s2))"

text \<open>The callback of \<open>setTimeout(..., 60000)\<close> for one request.\<close>

definition permission_timeout :: "string \<Rightarrow> nat \<Rightarrow> tool_registry \<Rightarrow> tool_registry" where
  "permission_timeout requestId p s =
     (if pendingPermissionRequests s requestId \<noteq> None
      then settle p (Inl ''Permission request timeout'')
             (s\<lparr>pendingPermissionRequests := (pendingPermissionRequests s)(requestId := None)\<rparr>)
      else s)"

text \<open>
  The wait for promise \<open>p\<close>: the responses that arrive within the 60 seconds are handled
  one by one until \<open>p\<close> is settled; when they are used up and \<open>p\<close> is still unsettled,
  the timer fires.
\<close>

fun await_permission ::
  "string \<Rightarrow> nat \<Rightarrow> permission_response list \<Rightarrow> tool_registry \<Rightarrow> tool_registry" where
  "await_permission requestId p [] s = permission_timeout requestId p s"
| "await_permission requestId p (r # rs) s =
     (if promises s p \<noteq> None then s
      else await_permission requestId p rs (handlePermissionResponse s r))"

text \<open>
  The request is posted to every connected port; then \<open>new Promise\<close> makes a promise
  with a fresh number, unsettled, stores the entry under the request id and starts the
  timer. The call ends as the promise is settled.
\<close>

definition requestPermissionFromUser ::
  "call_env \<Rightarrow> tool_registry \<Rightarrow> tool_call \<Rightarrow> tool_descriptor \<Rightarrow> tool_context \<Rightarrow>
   bool outcome \<times> tool_registry" where
  "requestPermissionFromUser env s toolCall descriptor context =
     (let requestId = env_requestId env;
          request = \<lparr>pr_type = ''PERMISSION_REQUEST'',
                     pr_toolName = tc_name toolCall,
                     pr_toolDescriptor = descriptor,
                     pr_params = tc_input toolCall,
                     pr_context = context,
                     pr_requestId = requestId\<rparr>;
          s1 = foldl (\<lambda>t port. emit (PortPost port request) t) s (connectedPorts s);
          p = next_promise s1;
          s2 = s1\<lparr>next_promise := Suc p,
                  promises := (promises s1)(p := None),
                  pendingPermissionRequests :=
                    (pendingPermissionRequests s1)
                      (requestId \<mapsto>
                         \<lparr>pe_promise = p,
                          pe_toolName = tc_name toolCall,
                          pe_domain = (if truthy (ctx_url context) then env_domain env
                                       else None)\<rparr>)\<rparr>;
          s3 = await_permission requestId p (env_responses env) s2
      in (case promises s3 p of
            None \<Rightarrow> (Pending, s3)
          | Some (Inl e) \<Rightarrow> (Throws e, s3)
          | Some (Inr granted) \<Rightarrow> (Returns granted, s3)))"

subsection \<open>executeTool\<close>

definition getToolContext :: "call_env \<Rightarrow> tool_registry \<Rightarrow> tool_context \<times> tool_registry" where
  "getToolContext env s =
     (if \<not> env_domainAware env then (\<lparr>ctx_url = None, ctx_tabId = None\<rparr>, s)
      else (case env_tabs env of
              Inl e \<Rightarrow> (\<lparr>ctx_url = None, ctx_tabId = None\<rparr>,
                        emit (ConsoleError ''Failed to get tab context:'') s)
            | Inr [] \<Rightarrow> (\<lparr>ctx_url = None, ctx_tabId = None\<rparr>, s)
            | Inr (t # ts) \<Rightarrow> (\<lparr>ctx_url = tab_url t, ctx_tabId = tab_id t\<rparr>, s)))"

definition error_result :: "string \<Rightarrow> string \<Rightarrow> tool_execution_response" where
  "error_result txt err =
     \<lparr>resp_content = Some [text_block txt], resp_details = None, resp_error = Some err\<rparr>"

text \<open>The \<open>try\<close> block that sends TOOL_EXECUTE to the owner, with its \<open>catch\<close>.\<close>

definition dispatch ::
  "call_env \<Rightarrow> tool_registry \<Rightarrow> registration \<Rightarrow> tool_call \<Rightarrow>
   tool_execution_response outcome \<times> tool_registry" where
  "dispatch env s registration toolCall =
     (let s1 = emit (OwnerSend (reg_extensionId registration)
                       \<lparr>ter_type = ''TOOL_EXECUTE'',
                        ter_toolName = tc_name toolCall,
                        ter_params = tc_input toolCall,
                        ter_toolCallId = tc_id toolCall\<rparr>) s
      in (case env_reply env of
            Inl e \<Rightarrow>
              (Returns (error_result (''Error: '' @ e) e),
               emit (ConsoleError (''Error executing tool '' @ tc_name toolCall @ '':'')) s1)
          | Inr response \<Rightarrow>
              (if truthy (resp_error response)
               then (Returns (error_result (''Error: '' @ or_empty (resp_error response))
                               (or_empty (resp_error response))), s1)
               else (Returns response, s1))))"

definition executeTool ::
  "call_env \<Rightarrow> tool_registry \<Rightarrow> tool_call \<Rightarrow> tool_execution_response outcome \<times> tool_registry" where
  "executeTool env s toolCall =
     (case map_of (registeredTools s) (tc_name toolCall) of
        None \<Rightarrow>
          (Returns (error_result (''Unknown tool: '' @ tc_name toolCall)
                                 (''Unknown tool: '' @ tc_name toolCall)), s)
      | Some registration \<Rightarrow>
          (case getToolContext env s of
             (context, s1) \<Rightarrow>
               (let permissionCheck = env_check env
                in if \<not> pc_allowed permissionCheck \<and> \<not> pc_requiresPrompt permissionCheck
                   then (Returns (error_result (''Permission denied for tool: '' @ tc_name toolCall)
                                               ''Permission denied''), s1)
                   else if pc_requiresPrompt permissionCheck
                   then (case requestPermissionFromUser env s1 toolCall
                                (reg_descriptor registration) context of
                           (Returns granted, s2) \<Rightarrow>
                             (if \<not> granted
                              then (Returns (error_result
                                       (''User denied permission for tool: '' @ tc_name toolCall)
                                       ''User denied permission''), s2)
                              else dispatch env s2 registration toolCall)
                         | (Throws e, s2) \<Rightarrow> (Throws e, s2)
                         | (Pending, s2) \<Rightarrow> (Pending, s2))
                   else dispatch env s1 registration toolCall)))"

subsection \<open>executePrompt\<close>

definition systemPrompt :: string where
  "systemPrompt = ''You are a helpful AI assistant that can control the browser using available tools. When the user asks you to perform an action, use the appropriate tools to accomplish it. Be concise and helpful.''"

definition plain_message :: "role \<Rightarrow> string \<Rightarrow> ai_message" where
  "plain_message r c =
     \<lparr>msg_role = r, msg_content = Some c, msg_tool_calls = None, msg_tool_call_id = None\<rparr>"

text \<open>The callback that \<open>executePrompt\<close> passes to the adapter, on the buffer of tool calls.\<close>

definition on_adapter_event ::
  "tool_call list \<times> tool_registry \<Rightarrow> ai_event \<Rightarrow> tool_call list \<times> tool_registry" where
  "on_adapter_event acc event =
     (case acc of (pendingToolCalls, s) \<Rightarrow>
        (case event of
           ToolUse toolCall \<Rightarrow> (pendingToolCalls @ [toolCall], emit (Emit (ToolUse toolCall)) s)
         | MessageComplete c \<Rightarrow>
             (pendingToolCalls, push_history (plain_message Assistant c) (emit (Emit event) s))
         | _ \<Rightarrow> (pendingToolCalls, emit (Emit event) s)))"

definition tool_call_ref_of :: "(json \<Rightarrow> string) \<Rightarrow> tool_call \<Rightarrow> tool_call_ref" where
  "tool_call_ref_of stringify tc =
     \<lparr>ref_id = tc_id tc,
      ref_type = ''function'',
      ref_function = \<lparr>fn_name = normalizeToolName (tc_name tc),
                      fn_arguments = stringify (tc_input tc)\<rparr>\<rparr>"

text \<open>\<open>Array.prototype.join(" ")\<close>.\<close>

fun join_space :: "string list \<Rightarrow> string" where
  "join_space [] = []"
| "join_space [x] = x"
| "join_space (x # y # ys) = x @ '' '' @ join_space (y # ys)"

text \<open>
  \<open>result.content?.map((c) => c.text).join(" ") || "Tool executed"\<close>: a block without
  text joins as the empty string, and an empty outcome gives the placeholder.
\<close>

definition result_text :: "tool_execution_response \<Rightarrow> string" where
  "result_text result =
     (case resp_content result of
        None \<Rightarrow> ''Tool executed''
      | Some blocks \<Rightarrow>
          (let t = join_space (map (\<lambda>c. or_empty (block_text c)) blocks)
           in if t = [] then ''Tool executed'' else t))"

definition tool_message :: "tool_call \<Rightarrow> tool_execution_response \<Rightarrow> ai_message" where
  "tool_message toolCall result =
     \<lparr>msg_role = Tool, msg_content = Some (result_text result),
      msg_tool_calls = None, msg_tool_call_id = Some (tc_id toolCall)\<rparr>"

text \<open>
  The loop \<open>for (const toolCall of pendingToolCalls)\<close>. The world answers the call made
  at time \<open>clock s\<close> with \<open>world (clock s)\<close>. An \<open>executeTool\<close> that throws ends the loop:
  there is no \<open>try\<close> around it.
\<close>

fun run_tool_calls ::
  "(nat \<Rightarrow> call_env) \<Rightarrow> tool_registry \<Rightarrow> tool_call list \<Rightarrow> unit outcome \<times> tool_registry" where
  "run_tool_calls world s [] = (Returns (), s)"
| "run_tool_calls world s (toolCall # rest) =
     (case executeTool (world (clock s)) (s\<lparr>clock := Suc (clock s)\<rparr>) toolCall of
        (Returns result, s1) \<Rightarrow>
          run_tool_calls world
            (push_history (tool_message toolCall result)
               (emit (Emit (ToolResult toolCall result)) s1)) rest
      | (Throws e, s1) \<Rightarrow> (Throws e, s1)
      | (Pending, s1) \<Rightarrow> (Pending, s1))"

text \<open>One pass through the body of \<open>while (continueConversation)\<close>; the value returned is
  \<open>continueConversation\<close> at its end.\<close>

definition loop_turn ::
  "(json \<Rightarrow> string) \<Rightarrow> (nat \<Rightarrow> call_env) \<Rightarrow> adapter \<Rightarrow> ai_tool list \<Rightarrow> tool_registry \<Rightarrow>
   bool outcome \<times> tool_registry" where
  "loop_turn stringify world ad tools s =
     (case foldl on_adapter_event ([], s\<lparr>clock := Suc (clock s)\<rparr>)
             (ad (clock s) (conversationHistory s) tools systemPrompt) of
        (pendingToolCalls, s1) \<Rightarrow>
          (if length pendingToolCalls > 0
           then (case run_tool_calls world
                        (push_history
                           \<lparr>msg_role = Assistant, msg_content = None,
                            msg_tool_calls = Some (map (tool_call_ref_of stringify) pendingToolCalls),
                            msg_tool_call_id = None\<rparr> s1)
                        pendingToolCalls of
                   (Returns u, s2) \<Rightarrow> (Returns True, s2)
                 | (Throws e, s2) \<Rightarrow> (Throws e, s2)
                 | (Pending, s2) \<Rightarrow> (Pending, s2))
           else (Returns False, s1)))"

text \<open>
  The \<open>while\<close> loop, with fuel: \<open>None\<close> when the model is still asking for tools after
  \<open>fuel\<close> turns.
\<close>

fun agent_loop ::
  "nat \<Rightarrow> (json \<Rightarrow> string) \<Rightarrow> (nat \<Rightarrow> call_env) \<Rightarrow> adapter \<Rightarrow> ai_tool list \<Rightarrow> tool_registry \<Rightarrow>
   (unit outcome \<times> tool_registry) option" where
  "agent_loop 0 stringify world ad tools s = None"
| "agent_loop (Suc fuel) stringify world ad tools s =
     (case loop_turn stringify world ad tools s of
        (Returns continueConversation, s1) \<Rightarrow>
          (if continueConversation then agent_loop fuel stringify world ad tools s1
           else Some (Returns (), s1))
      | (Throws e, s1) \<Rightarrow> Some (Throws e, s1)
      | (Pending, s1) \<Rightarrow> Some (Pending, s1))"

definition executePrompt ::
  "nat \<Rightarrow> (json \<Rightarrow> string) \<Rightarrow> (nat \<Rightarrow> call_env) \<Rightarrow> tool_registry \<Rightarrow> string \<Rightarrow>
   (unit outcome \<times> tool_registry) option" where
  "executePrompt fuel stringify world s prompt =
     (case adapter s of
        None \<Rightarrow> Some (Throws ''Adapter not initialized. Please configure API key first.'', s)
      | Some ad \<Rightarrow>
          (let s1 = push_history (plain_message User prompt) s
           in agent_loop fuel stringify world ad (getAITools s1) s1))"

text \<open>
  The listener of the port for \<open>EXECUTE_PROMPT\<close>: its \<open>try\<close> turns an error thrown by
  \<open>executePrompt\<close> into the frame \<open>AGENT_ERROR\<close>.
\<close>

definition on_execute_prompt ::
  "nat \<Rightarrow> (json \<Rightarrow> string) \<Rightarrow> (nat \<Rightarrow> call_env) \<Rightarrow> tool_registry \<Rightarrow> string \<Rightarrow>
   (unit outcome \<times> tool_registry) option" where
  "on_execute_prompt fuel stringify world s prompt =
     (if prompt = [] then Some (Returns (), s)
      else (case executePrompt fuel stringify world s prompt of
              None \<Rightarrow> None
            | Some (Returns u, s1) \<Rightarrow> Some (Returns (), emit AgentComplete s1)
            | Some (Throws e, s1) \<Rightarrow>
                Some (Returns (), emit (AgentError (if e = [] then ''Unknown error'' else e)) s1)
            | Some (Pending, s1) \<Rightarrow> Some (Pending, s1)))"

section \<open>Projections of event lists and effect traces\<close>

fun tool_uses :: "ai_event list \<Rightarrow> tool_call list" where
  "tool_uses [] = []"
| "tool_uses (ToolUse tc # evs) = tc # tool_uses evs"
| "tool_uses (e # evs) = tool_uses evs"

fun completions :: "ai_event list \<Rightarrow> string list" where
  "completions [] = []"
| "completions (MessageComplete c # evs) = c # completions evs"
| "completions (e # evs) = completions evs"

fun owner_sends :: "effect list \<Rightarrow> (string \<times> tool_execution_request) list" where
  "owner_sends [] = []"
| "owner_sends (OwnerSend ext req # es) = (ext, req) # owner_sends es"
| "owner_sends (e # es) = owner_sends es"

fun emitted :: "effect list \<Rightarrow> ai_event list" where
  "emitted [] = []"
| "emitted (Emit ev # es) = ev # emitted es"
| "emitted (e # es) = emitted es"

text \<open>The message that a dispatch of a tool call sends to the owner of the tool.\<close>

definition execute_request :: "tool_call \<Rightarrow> tool_execution_request" where
  "execute_request tc =
     \<lparr>ter_type = ''TOOL_EXECUTE'', ter_toolName = tc_name tc,
      ter_params = tc_input tc, ter_toolCallId = tc_id tc\<rparr>"

text \<open>
  What the permission protocol leaves alone: the registry of tools, the adapter, the
  history, the ports, the clock, the messages sent to owners and the events forwarded.
\<close>

definition same_frame :: "tool_registry \<Rightarrow> tool_registry \<Rightarrow> bool" where
  "same_frame s t \<longleftrightarrow>
     registeredTools t = registeredTools s \<and> adapter t = adapter s \<and>
     conversationHistory t = conversationHistory s \<and> connectedPorts t = connectedPorts s \<and>
     clock t = clock s \<and>
     owner_sends (effects t) = owner_sends (effects s) \<and>
     emitted (effects t) = emitted (effects s)"

fun is_start :: "ai_event \<Rightarrow> bool" where
  "is_start MessageStart = True"
| "is_start e = False"

fun is_update :: "ai_event \<Rightarrow> bool" where
  "is_update (MessageUpdate c) = True"
| "is_update e = False"

fun is_tool_use :: "ai_event \<Rightarrow> bool" where
  "is_tool_use (ToolUse tc) = True"
| "is_tool_use e = False"

fun is_complete :: "ai_event \<Rightarrow> bool" where
  "is_complete (MessageComplete c) = True"
| "is_complete e = False"

fun is_error :: "ai_event \<Rightarrow> bool" where
  "is_error (ErrorEvent m) = True"
| "is_error e = False"

text \<open>
  The shape of the events of one turn: one \<open>message_start\<close>, which comes first, and at
  the end either one \<open>message_complete\<close> with no \<open>tool_use\<close> at all, or \<open>tool_use\<close>
  events with no \<open>message_complete\<close> at all.
\<close>

definition well_formed_turn :: "ai_event list \<Rightarrow> bool" where
  "well_formed_turn evs \<longleftrightarrow>
     evs \<noteq> [] \<and> hd evs = MessageStart \<and> length (filter is_start evs) = 1 \<and>
     ((length (filter is_complete evs) = 1 \<and> filter is_tool_use evs = [] \<and> is_complete (last evs))
      \<or> (filter is_tool_use evs \<noteq> [] \<and> filter is_complete evs = [] \<and> is_tool_use (last evs)))"

text \<open>The tool calls that the streaming loop of the OpenAI adapter has accumulated at its end.\<close>

definition streamed_calls :: "chunk list \<Rightarrow> acc_call option list" where
  "streamed_calls chunks = fst (snd (foldl openai_chunk ([], [], [MessageStart]) chunks))"

text \<open>The names of the tool invocations in a reply of the Anthropic provider.\<close>

fun block_names :: "anthropic_block list \<Rightarrow> string list" where
  "block_names [] = []"
| "block_names (ToolUseBlock i n inp # bs) = n # block_names bs"
| "block_names (b # bs) = block_names bs"

fun is_tool_result :: "ai_event \<Rightarrow> bool" where
  "is_tool_result (ToolResult tc r) = True"
| "is_tool_result e = False"

section \<open>Concrete registries and worlds\<close>

text \<open>The registry right after \<open>new ToolRegistry()\<close>.\<close>

definition new_registry :: tool_registry where
  "new_registry =
     \<lparr>registeredTools = [], adapter = None, conversationHistory = [], connectedPorts = [],
      pendingPermissionRequests = Map.empty, promises = Map.empty, next_promise = 0,
      effects = [], clock = 0\<rparr>"

text \<open>
  A world in which the permission check asks for a prompt, no interactive surface answers
  it, and the owner of the tool would answer \<open>ok\<close>.
\<close>

definition silent_env :: call_env where
  "silent_env =
     \<lparr>env_domainAware = False, env_tabs = Inr [],
      env_check = \<lparr>pc_allowed = False, pc_requiresPrompt = True\<rparr>,
      env_requestId = ''perm-1-0.5'', env_domain = None, env_responses = [],
      env_reply = Inr \<lparr>resp_content = Some [text_block ''ok''], resp_details = None,
                       resp_error = None\<rparr>\<rparr>"

text \<open>A registry that waits for the answer to one permission prompt, for promise 0.\<close>

definition waiting_registry :: tool_registry where
  "waiting_registry =
     new_registry
       \<lparr>pendingPermissionRequests :=
          [''perm-1-0.5'' \<mapsto> \<lparr>pe_promise = 0, pe_toolName = ''nav.click'', pe_domain = None\<rparr>],
        next_promise := 1\<rparr>"

text \<open>A \<open>JSON.stringify\<close> for inputs that are the empty object.\<close>

definition stringify0 :: "json \<Rightarrow> string" where
  "stringify0 j = ''{}''"

text \<open>
  A registry with the tool \<open>nav.click\<close> of extension \<open>ext-1\<close>, one connected port, and an
  adapter whose model asks for two clicks in its first turn and completes afterwards.
\<close>

definition click_tool :: tool_descriptor where
  "click_tool = \<lparr>td_name = ''nav.click'', td_label = ''Click'', td_description = ''Click an element'',
                 td_parameters = JObj []\<rparr>"

definition two_calls_adapter :: adapter where
  "two_calls_adapter n history tools sys =
     (if n = 0
      then [MessageStart,
            ToolUse \<lparr>tc_id = ''call_1'', tc_name = ''nav.click'', tc_input = JObj []\<rparr>,
            ToolUse \<lparr>tc_id = ''call_2'', tc_name = ''nav.click'', tc_input = JObj []\<rparr>]
      else [MessageStart, MessageComplete ''done''])"

definition click_registry :: tool_registry where
  "click_registry =
     (registerExtension ''ext-1'' [click_tool] new_registry)
       \<lparr>adapter := Some two_calls_adapter, connectedPorts := [7]\<rparr>"

text \<open>
  A \<open>JSON.parse\<close> that reads the empty object and rejects every other text, two tools
  whose names differ but are rewritten to the same name, and a provider whose stream
  holds one tool call.
\<close>

definition parse0 :: "string \<Rightarrow> string + json" where
  "parse0 s = (if s = ''{}'' then Inr (JObj []) else Inl ''JSON.parse: unexpected character'')"

definition dotted_tool :: ai_tool where
  "dotted_tool = \<lparr>tool_name = ''a.b.c'', tool_description = ''d'', tool_input_schema = JObj []\<rparr>"

definition plain_tool :: ai_tool where
  "plain_tool = \<lparr>tool_name = ''a_b_c'', tool_description = ''e'', tool_input_schema = JObj []\<rparr>"

definition call_stream :: "string \<Rightarrow> string \<Rightarrow> openai_request \<Rightarrow> thrown + openai_stream" where
  "call_stream n args req =
     Inr ([Some \<lparr>delta_content = None,
                 delta_tool_calls = Some [\<lparr>d_index = 0, d_id = Some ''call_1'', d_name = Some n,
                                           d_arguments = Some args\<rparr>]\<rparr>], None)"

text \<open>
  A world that allows every tool without a prompt; the two worlds as functions of time;
  services whose Anthropic provider answers with a text and a tool call; a history
  that holds a tool call and its result; providers that reject and providers that
  answer with a text; a map left over from an earlier call; and the two calls of
  \<open>two_calls_adapter\<close>.
\<close>

definition granting_env :: call_env where
  "granting_env = silent_env\<lparr>env_check := \<lparr>pc_allowed = True, pc_requiresPrompt = False\<rparr>\<rparr>"

definition silent_world :: "nat \<Rightarrow> call_env" where
  "silent_world n = silent_env"

definition granting_world :: "nat \<Rightarrow> call_env" where
  "granting_world n = granting_env"


definition tool_history :: "ai_message list" where
  "tool_history =
     [plain_message User ''list files'',
      \<lparr>msg_role = Assistant, msg_content = None,
       msg_tool_calls = Some [\<lparr>ref_id = ''call_1'', ref_type = ''function'',
                               ref_function = \<lparr>fn_name = ''fs_list'', fn_arguments = ''{}''\<rparr>\<rparr>],
       msg_tool_call_id = None\<rparr>,
      \<lparr>msg_role = Tool, msg_content = Some ''a.txt'', msg_tool_calls = None,
       msg_tool_call_id = Some ''call_1''\<rparr>]"



definition text_anthropic :: "anthropic_request \<Rightarrow> thrown + anthropic_block list" where
  "text_anthropic req = Inr [TextBlock ''hi'']"


definition text_google :: "google_request \<Rightarrow> thrown + string" where
  "text_google req = Inr ''hi''"

definition stale_map :: "string \<rightharpoonup> string" where
  "stale_map = [''a_b_c'' \<mapsto> ''left.over'']"

definition first_click :: tool_call where
  "first_click = \<lparr>tc_id = ''call_1'', tc_name = ''nav.click'', tc_input = JObj []\<rparr>"

definition second_click :: tool_call where
  "second_click = \<lparr>tc_id = ''call_2'', tc_name = ''nav.click'', tc_input = JObj []\<rparr>"

section \<open>The callback of the agent loop\<close>

lemma on_adapter_event_step:
  "on_adapter_event (pend, s) ev =
     (pend @ tool_uses [ev],
      s\<lparr>conversationHistory :=
           conversationHistory s @ map (plain_message Assistant) (completions [ev]),
        effects := effects s @ [Emit ev]\<rparr>)"
  by (cases ev) (simp_all add: on_adapter_event_def emit_def push_history_def)

lemma tool_uses_Cons: "tool_uses (ev # evs) = tool_uses [ev] @ tool_uses evs"
  by (cases ev) simp_all

lemma completions_Cons: "completions (ev # evs) = completions [ev] @ completions evs"
  by (cases ev) simp_all

lemma collect_events:
  "foldl on_adapter_event (pend, s) evs =
     (pend @ tool_uses evs,
      s\<lparr>conversationHistory :=
           conversationHistory s @ map (plain_message Assistant) (completions evs),
        effects := effects s @ map Emit evs\<rparr>)"
proof (induction evs arbitrary: pend s)
  case Nil
  then show ?case by simp
next
  case (Cons ev evs)
  show ?case
    by (simp add: on_adapter_event_step Cons.IH
          tool_uses_Cons [of ev evs] completions_Cons [of ev evs])
qed

section \<open>Unknown tools\<close>

text \<open>
  Claim C7. A call whose name is not in the registry gets from \<open>executeTool\<close> the
  synthetic result whose error and whose text are \<open>Unknown tool: <name>\<close>; the registry
  is returned as it was, so no effect was added to the trace and no message went to any
  owner. The loop over the buffered calls then reports the result, appends the tool
  message with that text and goes on with the remaining calls.
\<close>

theorem C7_unknown_tool:
  assumes "map_of (registeredTools s) (tc_name tc) = None"
  shows "executeTool env s tc =
           (Returns \<lparr>resp_content = Some [\<lparr>block_type = ''text'',
                                            block_text = Some (''Unknown tool: '' @ tc_name tc)\<rparr>],
                     resp_details = None,
                     resp_error = Some (''Unknown tool: '' @ tc_name tc)\<rparr>, s)
       \<and> run_tool_calls world s (tc # rest) =
           run_tool_calls world
             (push_history
                \<lparr>msg_role = Tool, msg_content = Some (''Unknown tool: '' @ tc_name tc),
                 msg_tool_calls = None, msg_tool_call_id = Some (tc_id tc)\<rparr>
                (emit (Emit (ToolResult tc
                         (error_result (''Unknown tool: '' @ tc_name tc)
                                       (''Unknown tool: '' @ tc_name tc))))
                   (s\<lparr>clock := Suc (clock s)\<rparr>)))
             rest"
  using assms
  by (simp add: executeTool_def error_result_def text_block_def tool_message_def
        result_text_def or_empty_def)

theorem C7_unknown_tool_witness:
  "map_of (registeredTools new_registry)
          (tc_name \<lparr>tc_id = ''call_1'', tc_name = ''fs.list'', tc_input = JObj []\<rparr>) = None
   \<and> fst (executeTool silent_env new_registry
             \<lparr>tc_id = ''call_1'', tc_name = ''fs.list'', tc_input = JObj []\<rparr>) =
       Returns \<lparr>resp_content = Some [\<lparr>block_type = ''text'',
                                        block_text = Some ''Unknown tool: fs.list''\<rparr>],
                 resp_details = None,
                 resp_error = Some ''Unknown tool: fs.list''\<rparr>
   \<and> effects (snd (executeTool silent_env new_registry
                      \<lparr>tc_id = ''call_1'', tc_name = ''fs.list'', tc_input = JObj []\<rparr>)) = []"
proof -
  have h: "map_of (registeredTools new_registry)
                  (tc_name \<lparr>tc_id = ''call_1'', tc_name = ''fs.list'', tc_input = JObj []\<rparr>) = None"
    by (simp add: new_registry_def)
  show ?thesis
    using h C7_unknown_tool [OF h, of silent_env "\<lambda>n. silent_env" "[]"]
    by (simp add: new_registry_def)
qed

section \<open>Permission responses\<close>

text \<open>
  Claim C8. The first PERMISSION_RESPONSE for a pending request removes the entry and
  resolves its promise with the granted value of that response. A second response for
  the same request id then finds no entry: it adds one warning to the console and
  changes nothing else, so the promise keeps its value, no other entry or promise is
  touched and \<open>storePermission\<close> is not called. The same holds for any response whose
  request id has no pending entry.
\<close>

theorem C8_permission_response_once:
  "(pendingPermissionRequests s (prs_requestId r) = Some e \<and> promises s (pe_promise e) = None \<and>
    prs_requestId r2 = prs_requestId r \<longrightarrow>
      pendingPermissionRequests (handlePermissionResponse s r) (prs_requestId r) = None \<and>
      promises (handlePermissionResponse s r) (pe_promise e) = Some (Inr (prs_granted r)) \<and>
      handlePermissionResponse (handlePermissionResponse s r) r2 =
        emit (ConsoleWarn (''No pending permission request for: '' @ prs_requestId r2))
          (handlePermissionResponse s r))
   \<and> (pendingPermissionRequests s (prs_requestId r3) = None \<longrightarrow>
        handlePermissionResponse s r3 =
          emit (ConsoleWarn (''No pending permission request for: '' @ prs_requestId r3)) s)"
  by (simp add: handlePermissionResponse_def settle_def emit_def Let_def)

theorem C8_permission_response_once_witness:
  "pendingPermissionRequests waiting_registry ''perm-1-0.5'' =
     Some \<lparr>pe_promise = 0, pe_toolName = ''nav.click'', pe_domain = None\<rparr>
   \<and> promises waiting_registry 0 = None
   \<and> promises (handlePermissionResponse
                 (handlePermissionResponse waiting_registry
                    \<lparr>prs_requestId = ''perm-1-0.5'', prs_granted = True, prs_remember = False, prs_scope = None\<rparr>)
                 \<lparr>prs_requestId = ''perm-1-0.5'', prs_granted = False, prs_remember = True, prs_scope = None\<rparr>) 0
       = Some (Inr True)
   \<and> effects (handlePermissionResponse
                 (handlePermissionResponse waiting_registry
                    \<lparr>prs_requestId = ''perm-1-0.5'', prs_granted = True, prs_remember = False, prs_scope = None\<rparr>)
                 \<lparr>prs_requestId = ''perm-1-0.5'', prs_granted = False, prs_remember = True, prs_scope = None\<rparr>)
       = [ConsoleWarn ''No pending permission request for: perm-1-0.5'']
   \<and> pendingPermissionRequests waiting_registry ''perm-9-0.1'' = None
   \<and> effects (handlePermissionResponse waiting_registry
                 \<lparr>prs_requestId = ''perm-9-0.1'', prs_granted = True, prs_remember = True, prs_scope = None\<rparr>)
       = [ConsoleWarn ''No pending permission request for: perm-9-0.1'']"
proof -
  have h1: "pendingPermissionRequests waiting_registry ''perm-1-0.5'' =
     Some \<lparr>pe_promise = 0, pe_toolName = ''nav.click'', pe_domain = None\<rparr>"
    by (simp add: waiting_registry_def new_registry_def)
  have h2: "promises waiting_registry 0 = None"
    by (simp add: waiting_registry_def new_registry_def)
  have h3: "pendingPermissionRequests waiting_registry ''perm-9-0.1'' = None"
    by (simp add: waiting_registry_def new_registry_def)
  have e1: "effects (handlePermissionResponse waiting_registry
                    \<lparr>prs_requestId = ''perm-1-0.5'', prs_granted = True, prs_remember = False, prs_scope = None\<rparr>) = []"
    by (simp add: handlePermissionResponse_def settle_def waiting_registry_def new_registry_def)
  have h4: "effects waiting_registry = []"
    by (simp add: waiting_registry_def new_registry_def)
  show ?thesis
    using h1 h2 h3 h4 e1
      C8_permission_response_once [of waiting_registry
        "\<lparr>prs_requestId = ''perm-1-0.5'', prs_granted = True, prs_remember = False, prs_scope = None\<rparr>"
        "\<lparr>pe_promise = 0, pe_toolName = ''nav.click'', pe_domain = None\<rparr>"
        "\<lparr>prs_requestId = ''perm-1-0.5'', prs_granted = False, prs_remember = True, prs_scope = None\<rparr>"
        "\<lparr>prs_requestId = ''perm-9-0.1'', prs_granted = True, prs_remember = True, prs_scope = None\<rparr>"]
    by (simp add: emit_def)
qed

section \<open>What the permission protocol and a tool call leave alone\<close>

lemma owner_sends_append: "owner_sends (xs @ ys) = owner_sends xs @ owner_sends ys"
  by (induction xs rule: owner_sends.induct) simp_all

lemma emitted_append: "emitted (xs @ ys) = emitted xs @ emitted ys"
  by (induction xs rule: emitted.induct) simp_all

lemma emitted_map_Emit: "emitted (map Emit evs) = evs"
  by (induction evs) simp_all

lemma owner_sends_map_Emit: "owner_sends (map Emit evs) = []"
  by (induction evs) simp_all

lemma same_frame_refl: "same_frame s s"
  by (simp add: same_frame_def)

lemma same_frame_trans: "same_frame s t \<Longrightarrow> same_frame t u \<Longrightarrow> same_frame s u"
  by (simp add: same_frame_def)

lemma settle_frame: "same_frame s (settle p v s)"
  by (simp add: same_frame_def settle_def)

lemma handlePermissionResponse_frame: "same_frame s (handlePermissionResponse s r)"
  by (simp add: same_frame_def handlePermissionResponse_def settle_def emit_def Let_def
        owner_sends_append emitted_append split: option.splits)

lemma permission_timeout_frame: "same_frame s (permission_timeout rid p s)"
  by (simp add: same_frame_def permission_timeout_def settle_def)

lemma await_permission_frame: "same_frame s (await_permission rid p rs s)"
proof (induction rs arbitrary: s)
  case Nil
  then show ?case by (simp add: permission_timeout_frame)
next
  case (Cons r rs)
  show ?case
    using same_frame_trans [OF handlePermissionResponse_frame Cons.IH]
    by (simp add: same_frame_refl)
qed

lemma post_ports_frame:
  "same_frame s (foldl (\<lambda>t port. emit (PortPost port request) t) s ports)"
proof (induction ports arbitrary: s)
  case Nil
  then show ?case by (simp add: same_frame_refl)
next
  case (Cons a ports)
  have "same_frame s (emit (PortPost a request) s)"
    by (simp add: same_frame_def emit_def owner_sends_append emitted_append)
  then show ?case
    using same_frame_trans [OF _ Cons.IH] by simp
qed

lemma snd_outcome_case:
  "snd (case x of None \<Rightarrow> (a, t) | Some (Inl e) \<Rightarrow> (b e, t) | Some (Inr g) \<Rightarrow> (c g, t)) = t"
  by (simp split: option.splits sum.splits)

lemma requestPermissionFromUser_frame:
  "same_frame s (snd (requestPermissionFromUser env s tc d ctx))"
proof -
  let ?req = "\<lparr>pr_type = ''PERMISSION_REQUEST'', pr_toolName = tc_name tc,
                pr_toolDescriptor = d, pr_params = tc_input tc, pr_context = ctx,
                pr_requestId = env_requestId env\<rparr>"
  let ?s1 = "foldl (\<lambda>t port. emit (PortPost port ?req) t) s (connectedPorts s)"
  let ?s2 = "?s1\<lparr>next_promise := Suc (next_promise ?s1),
                  promises := (promises ?s1)(next_promise ?s1 := None),
                  pendingPermissionRequests :=
                    (pendingPermissionRequests ?s1)
                      (env_requestId env \<mapsto>
                         \<lparr>pe_promise = next_promise ?s1,
                          pe_toolName = tc_name tc,
                          pe_domain = (if truthy (ctx_url ctx) then env_domain env
                                       else None)\<rparr>)\<rparr>"
  have a: "same_frame s ?s1" by (rule post_ports_frame)
  have b: "same_frame ?s1 ?s2" by (simp add: same_frame_def)
  have c: "same_frame ?s2 (await_permission (env_requestId env) (next_promise ?s1) (env_responses env) ?s2)"
    by (rule await_permission_frame)
  have d: "same_frame s (await_permission (env_requestId env) (next_promise ?s1) (env_responses env) ?s2)"
    using same_frame_trans [OF same_frame_trans [OF a b] c] .
  have eq: "snd (requestPermissionFromUser env s tc d ctx) =
            await_permission (env_requestId env) (next_promise ?s1) (env_responses env) ?s2"
    unfolding requestPermissionFromUser_def Let_def by (rule snd_outcome_case)
  show ?thesis unfolding eq by (rule d)
qed

lemma emit_owner_frame:
  "registeredTools (emit e s) = registeredTools s \<and> adapter (emit e s) = adapter s \<and>
   conversationHistory (emit e s) = conversationHistory s \<and>
   connectedPorts (emit e s) = connectedPorts s \<and> clock (emit e s) = clock s"
  by (simp add: emit_def)

lemma dispatch_trace:
  "dispatch env s reg tc = (r, t) \<Longrightarrow>
     (\<exists>res. r = Returns res) \<and>
     registeredTools t = registeredTools s \<and> adapter t = adapter s \<and>
     conversationHistory t = conversationHistory s \<and> connectedPorts t = connectedPorts s \<and>
     clock t = clock s \<and>
     owner_sends (effects t) = owner_sends (effects s) @ [(reg_extensionId reg, execute_request tc)] \<and>
     emitted (effects t) = emitted (effects s)"
  by (auto simp: dispatch_def Let_def emit_def owner_sends_append emitted_append execute_request_def
        split: sum.splits if_splits)

lemma getToolContext_frame: "same_frame s (snd (getToolContext env s))"
  by (simp add: getToolContext_def same_frame_def emit_def owner_sends_append emitted_append
        split: sum.splits list.splits)

text \<open>The messages one \<open>executeTool\<close> may send to an owner: none, or the one for its call.\<close>

lemma executeTool_trace:
  assumes "executeTool env s tc = (r, t)"
  shows "registeredTools t = registeredTools s \<and> adapter t = adapter s \<and>
     conversationHistory t = conversationHistory s \<and> connectedPorts t = connectedPorts s \<and>
     clock t = clock s \<and>
     emitted (effects t) = emitted (effects s) \<and>
     (owner_sends (effects t) = owner_sends (effects s) \<or>
      (\<exists>reg. map_of (registeredTools s) (tc_name tc) = Some reg \<and> (\<exists>res. r = Returns res) \<and>
         owner_sends (effects t) =
           owner_sends (effects s) @ [(reg_extensionId reg, execute_request tc)]))"
proof (cases "map_of (registeredTools s) (tc_name tc)")
  case None
  with assms show ?thesis by (auto simp: executeTool_def)
next
  case (Some reg)
  obtain ctx s1 where g: "getToolContext env s = (ctx, s1)" by (cases "getToolContext env s")
  have f1: "same_frame s s1" using getToolContext_frame [of s env] g by simp
  obtain pr s2 where q: "requestPermissionFromUser env s1 tc (reg_descriptor reg) ctx = (pr, s2)"
    by (cases "requestPermissionFromUser env s1 tc (reg_descriptor reg) ctx")
  have f2: "same_frame s1 s2" using requestPermissionFromUser_frame [of s1 env tc "reg_descriptor reg" ctx] q by simp
  have f12: "same_frame s s2" using same_frame_trans [OF f1 f2] .
  consider (denied) "\<not> pc_allowed (env_check env) \<and> \<not> pc_requiresPrompt (env_check env)"
    | (prompt) "pc_requiresPrompt (env_check env)"
    | (allowed) "pc_allowed (env_check env) \<and> \<not> pc_requiresPrompt (env_check env)"
    by blast
  then show ?thesis
  proof cases
    case denied
    with assms Some g have "t = s1" by (auto simp: executeTool_def)
    with f1 show ?thesis by (simp add: same_frame_def)
  next
    case allowed
    with assms Some g have "dispatch env s1 reg tc = (r, t)" by (auto simp: executeTool_def)
    from dispatch_trace [OF this] f1 Some show ?thesis by (simp add: same_frame_def)
  next
    case prompt
    show ?thesis
    proof (cases pr)
      case (Returns granted)
      show ?thesis
      proof (cases granted)
        case True
        with assms Some g q prompt Returns have "dispatch env s2 reg tc = (r, t)"
          by (auto simp: executeTool_def)
        from dispatch_trace [OF this] f12 Some show ?thesis by (simp add: same_frame_def)
      next
        case False
        with assms Some g q prompt Returns have "t = s2" by (auto simp: executeTool_def)
        with f12 show ?thesis by (simp add: same_frame_def)
      qed
    next
      case (Throws e)
      with assms Some g q prompt have "t = s2" by (auto simp: executeTool_def)
      with f12 show ?thesis by (simp add: same_frame_def)
    next
      case Pending
      with assms Some g q prompt have "t = s2" by (auto simp: executeTool_def)
      with f12 show ?thesis by (simp add: same_frame_def)
    qed
  qed
qed


section \<open>Every permission wait ends\<close>

lemma handlePermissionResponse_keeps_wait:
  assumes "promises s p \<noteq> None \<or> (\<exists>e. pendingPermissionRequests s rid = Some e \<and> pe_promise e = p)"
  shows "promises (handlePermissionResponse s r) p \<noteq> None \<or>
         (\<exists>e. pendingPermissionRequests (handlePermissionResponse s r) rid = Some e \<and> pe_promise e = p)"
  using assms
  by (auto simp: handlePermissionResponse_def settle_def emit_def Let_def split: option.splits)

lemma await_permission_settles:
  assumes "promises s p \<noteq> None \<or> (\<exists>e. pendingPermissionRequests s rid = Some e \<and> pe_promise e = p)"
  shows "promises (await_permission rid p rs s) p \<noteq> None"
  using assms
proof (induction rs arbitrary: s)
  case Nil
  then show ?case by (auto simp: permission_timeout_def settle_def)
next
  case (Cons r rs)
  show ?case
  proof (cases "promises s p \<noteq> None")
    case True
    then show ?thesis by simp
  next
    case False
    then show ?thesis
      using Cons.IH [OF handlePermissionResponse_keeps_wait [OF Cons.prems]] by simp
  qed
qed

lemma requestPermissionFromUser_settles:
  "fst (requestPermissionFromUser env s tc d ctx) \<noteq> Pending"
proof -
  let ?req = "\<lparr>pr_type = ''PERMISSION_REQUEST'', pr_toolName = tc_name tc,
                pr_toolDescriptor = d, pr_params = tc_input tc, pr_context = ctx,
                pr_requestId = env_requestId env\<rparr>"
  let ?s1 = "foldl (\<lambda>t port. emit (PortPost port ?req) t) s (connectedPorts s)"
  let ?s2 = "?s1\<lparr>next_promise := Suc (next_promise ?s1),
                  promises := (promises ?s1)(next_promise ?s1 := None),
                  pendingPermissionRequests :=
                    (pendingPermissionRequests ?s1)
                      (env_requestId env \<mapsto>
                         \<lparr>pe_promise = next_promise ?s1,
                          pe_toolName = tc_name tc,
                          pe_domain = (if truthy (ctx_url ctx) then env_domain env
                                       else None)\<rparr>)\<rparr>"
  have "promises (await_permission (env_requestId env) (next_promise ?s1) (env_responses env) ?s2)
          (next_promise ?s1) \<noteq> None"
    by (rule await_permission_settles) simp
  then obtain v where
    v: "promises (await_permission (env_requestId env) (next_promise ?s1) (env_responses env) ?s2)
          (next_promise ?s1) = Some v" by blast
  show ?thesis
    unfolding requestPermissionFromUser_def Let_def v
    by (cases v) simp_all
qed

lemma executeTool_settles: "fst (executeTool env s tc) \<noteq> Pending"
proof -
  have d: "\<And>t reg. fst (dispatch env t reg tc) \<noteq> Pending"
    by (simp add: dispatch_def Let_def split: sum.splits)
  show ?thesis
  proof (cases "map_of (registeredTools s) (tc_name tc)")
    case None
    then show ?thesis by (simp add: executeTool_def)
  next
    case (Some reg)
    obtain ctx s1 where g: "getToolContext env s = (ctx, s1)" by (cases "getToolContext env s")
    obtain pr s2 where q: "requestPermissionFromUser env s1 tc (reg_descriptor reg) ctx = (pr, s2)"
      by (cases "requestPermissionFromUser env s1 tc (reg_descriptor reg) ctx")
    have "pr \<noteq> Pending"
      using requestPermissionFromUser_settles [of env s1 tc "reg_descriptor reg" ctx] q by simp
    then show ?thesis
      using Some g q d by (cases pr) (simp_all add: executeTool_def Let_def)
  qed
qed

section \<open>A permission prompt that nobody answers\<close>

lemma requestPermissionFromUser_timeout:
  assumes "env_responses env = []"
  shows "fst (requestPermissionFromUser env s tc d ctx) = Throws ''Permission request timeout''
       \<and> pendingPermissionRequests (snd (requestPermissionFromUser env s tc d ctx)) (env_requestId env) = None"
  using assms
  by (simp add: requestPermissionFromUser_def Let_def permission_timeout_def settle_def)

lemma executeTool_timeout:
  assumes "map_of (registeredTools s) (tc_name tc) = Some reg"
      and "pc_requiresPrompt (env_check env)"
      and "env_responses env = []"
  shows "fst (executeTool env s tc) = Throws ''Permission request timeout''"
proof -
  obtain ctx s1 where g: "getToolContext env s = (ctx, s1)" by (cases "getToolContext env s")
  obtain pr s2 where q: "requestPermissionFromUser env s1 tc (reg_descriptor reg) ctx = (pr, s2)"
    by (cases "requestPermissionFromUser env s1 tc (reg_descriptor reg) ctx")
  have "pr = Throws ''Permission request timeout''"
    using requestPermissionFromUser_timeout [OF assms(3), of s1 tc "reg_descriptor reg" ctx] q by simp
  then show ?thesis
    using assms(1,2) g q by (simp add: executeTool_def Let_def)
qed

text \<open>
  A wait whose first response carries the id of the request returns the granted value
  of that response and leaves no pending entry for the id.
\<close>

lemma handlePermissionResponse_resolves:
  assumes "pendingPermissionRequests s (prs_requestId r) = Some e"
      and "promises s (pe_promise e) = None"
  shows "pendingPermissionRequests (handlePermissionResponse s r) (prs_requestId r) = None"
    and "promises (handlePermissionResponse s r) (pe_promise e) = Some (Inr (prs_granted r))"
  using assms by (simp_all add: handlePermissionResponse_def settle_def emit_def Let_def)

lemma await_permission_first_response:
  assumes "pendingPermissionRequests s (prs_requestId r) = Some e"
      and "promises s (pe_promise e) = None"
  shows "await_permission (prs_requestId r) (pe_promise e) (r # rs) s = handlePermissionResponse s r"
proof (cases rs)
  case Nil
  with assms(2) handlePermissionResponse_resolves(1) [OF assms] show ?thesis
    by (simp add: permission_timeout_def)
next
  case (Cons r' rs')
  with assms(2) handlePermissionResponse_resolves(2) [OF assms] show ?thesis
    by simp
qed

lemma requestPermissionFromUser_first_response:
  assumes "env_responses env = r # rs" and "prs_requestId r = env_requestId env"
  shows "fst (requestPermissionFromUser env s tc d ctx) = Returns (prs_granted r)
       \<and> pendingPermissionRequests (snd (requestPermissionFromUser env s tc d ctx))
            (env_requestId env) = None"
proof -
  let ?req = "\<lparr>pr_type = ''PERMISSION_REQUEST'', pr_toolName = tc_name tc,
                pr_toolDescriptor = d, pr_params = tc_input tc, pr_context = ctx,
                pr_requestId = env_requestId env\<rparr>"
  let ?s1 = "foldl (\<lambda>t port. emit (PortPost port ?req) t) s (connectedPorts s)"
  let ?e = "\<lparr>pe_promise = next_promise ?s1, pe_toolName = tc_name tc,
             pe_domain = (if truthy (ctx_url ctx) then env_domain env else None)\<rparr>"
  let ?s2 = "?s1\<lparr>next_promise := Suc (next_promise ?s1),
                  promises := (promises ?s1)(next_promise ?s1 := None),
                  pendingPermissionRequests :=
                    (pendingPermissionRequests ?s1)(env_requestId env \<mapsto> ?e)\<rparr>"
  let ?s3 = "await_permission (env_requestId env) (next_promise ?s1) (env_responses env) ?s2"
  have p: "pendingPermissionRequests ?s2 (prs_requestId r) = Some ?e" using assms(2) by simp
  have q: "promises ?s2 (pe_promise ?e) = None" by simp
  have "await_permission (prs_requestId r) (pe_promise ?e) (r # rs) ?s2 =
          handlePermissionResponse ?s2 r"
    using p q by (rule await_permission_first_response)
  then have s3: "?s3 = handlePermissionResponse ?s2 r" using assms by simp
  have a: "promises ?s3 (next_promise ?s1) = Some (Inr (prs_granted r))"
    using handlePermissionResponse_resolves(2) [OF p q] s3 by simp
  have b: "pendingPermissionRequests ?s3 (env_requestId env) = None"
    using handlePermissionResponse_resolves(1) [OF p q] s3 assms(2) by simp
  have "requestPermissionFromUser env s tc d ctx = (Returns (prs_granted r), ?s3)"
    unfolding requestPermissionFromUser_def Let_def a by simp
  with b show ?thesis by simp
qed

section \<open>The loop over the buffered tool calls\<close>

lemma run_tool_calls_returns:
  assumes "run_tool_calls world s calls = (Returns u, t)"
  shows "\<exists>results. length results = length calls \<and>
           conversationHistory t = conversationHistory s @ map2 tool_message calls results \<and>
           emitted (effects t) = emitted (effects s) @ map2 ToolResult calls results"
  using assms
proof (induction calls arbitrary: s)
  case Nil
  then show ?case by simp
next
  case (Cons tc rest)
  obtain r s1 where e: "executeTool (world (clock s)) (s\<lparr>clock := Suc (clock s)\<rparr>) tc = (r, s1)"
    by (cases "executeTool (world (clock s)) (s\<lparr>clock := Suc (clock s)\<rparr>) tc")
  from Cons.prems e obtain res where r: "r = Returns res"
    by (cases r) simp_all
  let ?s2 = "push_history (tool_message tc res) (emit (Emit (ToolResult tc res)) s1)"
  from Cons.prems e r have "run_tool_calls world ?s2 rest = (Returns u, t)" by simp
  from Cons.IH [OF this] obtain results where
    res: "length results = length rest"
      "conversationHistory t = conversationHistory ?s2 @ map2 tool_message rest results"
      "emitted (effects t) = emitted (effects ?s2) @ map2 ToolResult rest results"
    by blast
  have f: "conversationHistory s1 = conversationHistory s" "emitted (effects s1) = emitted (effects s)"
    using executeTool_trace [OF e] by simp_all
  have "length (res # results) = length (tc # rest) \<and>
        conversationHistory t = conversationHistory s @ map2 tool_message (tc # rest) (res # results) \<and>
        emitted (effects t) = emitted (effects s) @ map2 ToolResult (tc # rest) (res # results)"
    using res f by (simp add: push_history_def emit_def emitted_append)
  then show ?case by blast
qed

section \<open>The events of the adapters\<close>

lemma is_update_kind:
  "is_update e \<Longrightarrow> \<not> is_start e \<and> \<not> is_tool_use e \<and> \<not> is_complete e \<and> \<not> is_error e"
  by (cases e) simp_all

lemma is_tool_use_kind:
  "is_tool_use e \<Longrightarrow> \<not> is_start e \<and> \<not> is_update e \<and> \<not> is_complete e \<and> \<not> is_error e"
  by (cases e) simp_all

lemma updates_only:
  assumes "list_all is_update ups"
  shows "filter is_start ups = []" "filter is_tool_use ups = []" "filter is_complete ups = []"
    "filter is_error ups = []"
  using assms is_update_kind by (auto simp: filter_empty_conv list_all_iff)

lemma tool_uses_only:
  assumes "list_all is_tool_use us"
  shows "filter is_start us = []" "filter is_tool_use us = us" "filter is_complete us = []"
    "filter is_error us = []"
  using assms is_tool_use_kind by (auto simp: filter_empty_conv filter_id_conv list_all_iff)

lemma turn_with_completion:
  "list_all is_update ups \<Longrightarrow> well_formed_turn (MessageStart # ups @ [MessageComplete c])"
  by (simp add: well_formed_turn_def updates_only)

lemma turn_with_tool_uses:
  "list_all is_update ups \<Longrightarrow> list_all is_tool_use us \<Longrightarrow> us \<noteq> [] \<Longrightarrow>
   well_formed_turn (MessageStart # ups @ us)"
proof -
  assume a: "list_all is_update ups" "list_all is_tool_use us" "us \<noteq> []"
  then have "is_tool_use (last us)" by (simp add: list_all_iff)
  with a show ?thesis
    by (simp add: well_formed_turn_def updates_only tool_uses_only)
qed

lemma map_ToolUse_only: "list_all is_tool_use (map ToolUse tcs)"
  by (induction tcs) simp_all


lemma anthropic_run:
  "AnthropicAdapter_body create messages tools sys = (evs, r) \<Longrightarrow>
     (r \<noteq> None \<and> evs = [MessageStart]) \<or>
     (r = None \<and> (\<exists>ups c. list_all is_update ups \<and> evs = MessageStart # ups @ [MessageComplete c])) \<or>
     (r = None \<and> (\<exists>ups us. list_all is_update ups \<and> list_all is_tool_use us \<and> us \<noteq> [] \<and>
                     evs = MessageStart # ups @ us))"
proof -
  assume a: "AnthropicAdapter_body create messages tools sys = (evs, r)"
  show ?thesis
  proof (cases "create (anthropic_request_of messages tools sys)")
    case (Inl e)
    with a show ?thesis by (auto simp: AnthropicAdapter_body_def)
  next
    case (Inr content)
    obtain t tcs where b: "anthropic_blocks ([], []) content = (t, tcs)"
      by (cases "anthropic_blocks ([], []) content")
    let ?ups = "if t \<noteq> [] then [MessageUpdate [text_block t]] else []"
    have u: "list_all is_update ?ups" by simp
    show ?thesis
    proof (cases "tcs = []")
      case True
      with a Inr b have "r = None \<and> evs = MessageStart # ?ups @ [MessageComplete t]"
        by (auto simp: AnthropicAdapter_body_def)
      with u show ?thesis by blast
    next
      case False
      with a Inr b have "r = None \<and> evs = MessageStart # ?ups @ map ToolUse tcs"
        by (auto simp: AnthropicAdapter_body_def)
      moreover have "map ToolUse tcs \<noteq> []" using False by simp
      ultimately show ?thesis using u map_ToolUse_only [of tcs] by blast
    qed
  qed
qed


lemma openai_chunk_events:
  "\<exists>c' tcs' ups. openai_chunk (c, tcs, evs) ch = (c', tcs', evs @ ups) \<and> list_all is_update ups"
proof (cases ch)
  case None
  then show ?thesis by (simp add: openai_chunk_def)
next
  case (Some dl)
  show ?thesis
  proof (cases "truthy (delta_content dl)")
    case True
    with Some show ?thesis by (simp add: openai_chunk_def Let_def)
  next
    case False
    with Some show ?thesis by (simp add: openai_chunk_def Let_def)
  qed
qed

lemma openai_stream_events:
  "\<exists>c' tcs' ups. foldl openai_chunk (c, tcs, evs) chunks = (c', tcs', evs @ ups) \<and> list_all is_update ups"
proof (induction chunks arbitrary: c tcs evs)
  case Nil
  then show ?case by simp
next
  case (Cons ch chunks)
  obtain c1 tcs1 ups1 where
    s: "openai_chunk (c, tcs, evs) ch = (c1, tcs1, evs @ ups1)" "list_all is_update ups1"
    using openai_chunk_events by blast
  obtain c2 tcs2 ups2 where
    t: "foldl openai_chunk (c1, tcs1, evs @ ups1) chunks = (c2, tcs2, (evs @ ups1) @ ups2)"
       "list_all is_update ups2"
    using Cons.IH by blast
  have "foldl openai_chunk (c, tcs, evs) (ch # chunks) = (c2, tcs2, evs @ (ups1 @ ups2))
        \<and> list_all is_update (ups1 @ ups2)"
    using s t by simp
  then show ?case by blast
qed

lemma openai_tool_uses_events:
  "openai_tool_uses parse m tcs = (us, r) \<Longrightarrow>
     list_all is_tool_use us \<and> (r = None \<longrightarrow> length us = length tcs)"
proof (induction parse m tcs arbitrary: us r rule: openai_tool_uses.induct)
  case (1 parse m)
  then show ?case by simp
next
  case (2 parse m rest)
  then show ?case by auto
next
  case (3 parse m a rest)
  show ?case
  proof (cases "parse (acc_arguments a)")
    case (Inl e)
    with "3.prems" show ?thesis by auto
  next
    case (Inr inp)
    obtain us' r' where rec: "openai_tool_uses parse m rest = (us', r')"
      by (cases "openai_tool_uses parse m rest")
    from "3.IH" [OF Inr rec] have ih: "list_all is_tool_use us' \<and> (r' = None \<longrightarrow> length us' = length rest)" .
    from "3.prems" Inr rec have "us = ToolUse \<lparr>tc_id = acc_id a,
                         tc_name = original_name m (acc_name a),
                         tc_input = inp\<rparr> # us'" "r = r'" by simp_all
    with ih show ?thesis by simp
  qed
qed

lemma openai_run:
  "OpenAIAdapter_body parse create model m0 messages tools sys = ((evs, r), m) \<Longrightarrow>
     (r \<noteq> None \<and> (\<exists>ups us. list_all is_update ups \<and> list_all is_tool_use us \<and>
                     evs = MessageStart # ups @ us)) \<or>
     (r = None \<and> (\<exists>ups c. list_all is_update ups \<and> evs = MessageStart # ups @ [MessageComplete c])) \<or>
     (r = None \<and> (\<exists>ups us. list_all is_update ups \<and> list_all is_tool_use us \<and> us \<noteq> [] \<and>
                     evs = MessageStart # ups @ us))"
proof -
  assume a: "OpenAIAdapter_body parse create model m0 messages tools sys = ((evs, r), m)"
  show ?thesis
  proof (cases "create (openai_request_of model messages tools sys)")
    case (Inl e)
    with a have "r \<noteq> None \<and> evs = MessageStart # [] @ []"
      by (auto simp: OpenAIAdapter_body_def Let_def)
    moreover have "list_all is_update []" "list_all is_tool_use []" by simp_all
    ultimately show ?thesis by blast
  next
    case (Inr stream)
    obtain chunks thrown where st: "stream = (chunks, thrown)" by (cases stream)
    obtain c tcs ups where
      f: "foldl openai_chunk ([], [], [MessageStart]) chunks = (c, tcs, [MessageStart] @ ups)"
         "list_all is_update ups"
      using openai_stream_events by blast
    show ?thesis
    proof (cases thrown)
      case (Some e)
      with a Inr st f have "r \<noteq> None \<and> evs = MessageStart # ups @ []"
        by (auto simp: OpenAIAdapter_body_def Let_def)
      moreover have "list_all is_tool_use []" by simp
      ultimately show ?thesis using f(2) by blast
    next
      case None
      show ?thesis
      proof (cases "tcs = []")
        case True
        with a Inr st f None have "r = None \<and> evs = MessageStart # ups @ [MessageComplete c]"
          by (auto simp: OpenAIAdapter_body_def Let_def)
        with f(2) show ?thesis by blast
      next
        case False
        obtain us r' where u: "openai_tool_uses parse (build_toolNameMap tools) tcs = (us, r')"
          by (cases "openai_tool_uses parse (build_toolNameMap tools) tcs")
        from openai_tool_uses_events [OF u]
        have v: "list_all is_tool_use us" "r' = None \<longrightarrow> length us = length tcs" by simp_all
        from a Inr st f None False u have e: "r = r' \<and> evs = MessageStart # ups @ us"
          by (auto simp: OpenAIAdapter_body_def Let_def)
        show ?thesis
        proof (cases r')
          case None
          with v False have "us \<noteq> []" by auto
          with e None f(2) v(1) show ?thesis by blast
        next
          case (Some x)
          with e f(2) v(1) show ?thesis by blast
        qed
      qed
    qed
  qed
qed


lemma google_run:
  "GoogleAdapter_body chat model messages tools sys = (evs, r) \<Longrightarrow>
     (r \<noteq> None \<and> evs = [MessageStart]) \<or>
     (r = None \<and> (\<exists>ups c. list_all is_update ups \<and> evs = MessageStart # ups @ [MessageComplete c]))"
proof -
  assume a: "GoogleAdapter_body chat model messages tools sys = (evs, r)"
  show ?thesis
  proof (cases "messages = []")
    case True
    with a show ?thesis by (auto simp: GoogleAdapter_body_def)
  next
    case False
    show ?thesis
    proof (cases "chat (google_request_of model messages sys)")
      case (Inl e)
      with a False show ?thesis by (auto simp: GoogleAdapter_body_def)
    next
      case (Inr t)
      with a False have "r = None \<and> evs = MessageStart # [MessageUpdate [text_block t]] @ [MessageComplete t]"
        by (auto simp: GoogleAdapter_body_def)
      moreover have "list_all is_update [MessageUpdate [text_block t]]" by simp
      ultimately show ?thesis by blast
    qed
  qed
qed

text \<open>
  Claim C2. For each of the three adapters, a call of \<open>sendMessage\<close> whose body does not
  throw emits a well-formed turn: exactly one \<open>message_start\<close>, first, and at the end
  either exactly one \<open>message_complete\<close> and no \<open>tool_use\<close>, or at least one
  \<open>tool_use\<close> and no \<open>message_complete\<close>.
\<close>

theorem C2_turn_shape:
  "(snd (AnthropicAdapter_body acreate messages tools sys) = None \<longrightarrow>
      well_formed_turn (AnthropicAdapter_sendMessage acreate messages tools sys))
   \<and> (snd (fst (OpenAIAdapter_body parse ocreate model m0 messages tools sys)) = None \<longrightarrow>
      well_formed_turn (fst (OpenAIAdapter_sendMessage parse ocreate model m0 messages tools sys)))
   \<and> (snd (GoogleAdapter_body chat gmodel messages tools sys) = None \<longrightarrow>
      well_formed_turn (GoogleAdapter_sendMessage chat gmodel messages tools sys))"
proof (intro conjI impI)
  assume n: "snd (AnthropicAdapter_body acreate messages tools sys) = None"
  obtain evs r where b: "AnthropicAdapter_body acreate messages tools sys = (evs, r)"
    by (cases "AnthropicAdapter_body acreate messages tools sys")
  with n have r: "r = None" by simp
  from anthropic_run [OF b] r have "well_formed_turn evs"
    by (auto intro: turn_with_completion turn_with_tool_uses)
  with b r show "well_formed_turn (AnthropicAdapter_sendMessage acreate messages tools sys)"
    by (simp add: AnthropicAdapter_sendMessage_def catch_error_def)
next
  assume n: "snd (fst (OpenAIAdapter_body parse ocreate model m0 messages tools sys)) = None"
  obtain evs r m where b: "OpenAIAdapter_body parse ocreate model m0 messages tools sys = ((evs, r), m)"
    by (cases "OpenAIAdapter_body parse ocreate model m0 messages tools sys") auto
  with n have r: "r = None" by simp
  from openai_run [OF b] r have "well_formed_turn evs"
    by (auto intro: turn_with_completion turn_with_tool_uses)
  with b r show "well_formed_turn (fst (OpenAIAdapter_sendMessage parse ocreate model m0 messages tools sys))"
    by (simp add: OpenAIAdapter_sendMessage_def catch_error_def)
next
  assume n: "snd (GoogleAdapter_body chat gmodel messages tools sys) = None"
  obtain evs r where b: "GoogleAdapter_body chat gmodel messages tools sys = (evs, r)"
    by (cases "GoogleAdapter_body chat gmodel messages tools sys")
  with n have r: "r = None" by simp
  from google_run [OF b] r have "well_formed_turn evs"
    by (auto intro: turn_with_completion)
  with b r show "well_formed_turn (GoogleAdapter_sendMessage chat gmodel messages tools sys)"
    by (simp add: GoogleAdapter_sendMessage_def catch_error_def)
qed


theorem C2_turn_shape_witness:
  "snd (AnthropicAdapter_body text_anthropic [plain_message User ''q''] [dotted_tool] ''sys'') = None
   \<and> snd (fst (OpenAIAdapter_body parse0 (call_stream ''a_b_c'' ''{}'') ''gpt-4'' Map.empty
               [plain_message User ''q''] [dotted_tool] ''sys'')) = None
   \<and> snd (GoogleAdapter_body text_google ''gemini-pro'' [plain_message User ''q''] [dotted_tool] ''sys'') = None
   \<and> well_formed_turn
        (AnthropicAdapter_sendMessage text_anthropic [plain_message User ''q''] [dotted_tool] ''sys'')
   \<and> well_formed_turn
        (fst (OpenAIAdapter_sendMessage parse0 (call_stream ''a_b_c'' ''{}'') ''gpt-4'' Map.empty
               [plain_message User ''q''] [dotted_tool] ''sys''))
   \<and> well_formed_turn
        (GoogleAdapter_sendMessage text_google ''gemini-pro'' [plain_message User ''q''] [dotted_tool] ''sys'')"
proof -
  have h1: "snd (AnthropicAdapter_body text_anthropic [plain_message User ''q''] [dotted_tool] ''sys'') = None"
    by code_simp
  have h2: "snd (fst (OpenAIAdapter_body parse0 (call_stream ''a_b_c'' ''{}'') ''gpt-4'' Map.empty
               [plain_message User ''q''] [dotted_tool] ''sys'')) = None"
    by code_simp
  have h3: "snd (GoogleAdapter_body text_google ''gemini-pro'' [plain_message User ''q''] [dotted_tool] ''sys'') = None"
    by code_simp
  show ?thesis
    using h1 h2 h3
      C2_turn_shape [where acreate = text_anthropic and messages = "[plain_message User ''q'']"
        and tools = "[dotted_tool]" and sys = "''sys''" and parse = parse0
        and ocreate = "call_stream ''a_b_c'' ''{}''" and model = "''gpt-4''" and ?m0.0 = Map.empty
        and chat = text_google and gmodel = "''gemini-pro''"]
    by blast
qed

section \<open>Failures of the adapters\<close>

lemma filter_error_run:
  "list_all is_update ups \<Longrightarrow> list_all is_tool_use us \<Longrightarrow>
   filter is_error (MessageStart # ups @ us) = []"
  by (simp add: updates_only tool_uses_only)







section \<open>Tool names in the OpenAI adapter\<close>

lemma normalizeToolName_idem: "normalizeToolName (normalizeToolName n) = normalizeToolName n"
  by (simp add: normalizeToolName_def)

lemma normalizeToolName_no_dot: "CHR ''.'' \<notin> set (normalizeToolName n)"
  by (auto simp: normalizeToolName_def)

lemma normalizeToolName_changes: "CHR ''.'' \<in> set n \<Longrightarrow> normalizeToolName n \<noteq> n"
  using normalizeToolName_no_dot [of n] by auto

lemma build_toolNameMap_snoc:
  "build_toolNameMap (tools @ [t]) =
     (build_toolNameMap tools)(normalizeToolName (tool_name t) \<mapsto> tool_name t)"
  by (simp add: build_toolNameMap_def)

lemma build_toolNameMap_lookup:
  assumes "t \<in> set tools"
      and "\<forall>t'\<in>set tools. normalizeToolName (tool_name t') = normalizeToolName (tool_name t)
             \<longrightarrow> tool_name t' = tool_name t"
  shows "build_toolNameMap tools (normalizeToolName (tool_name t)) = Some (tool_name t)"
  using assms
proof (induction tools rule: rev_induct)
  case Nil
  then show ?case by simp
next
  case (snoc x xs)
  show ?case
  proof (cases "normalizeToolName (tool_name x) = normalizeToolName (tool_name t)")
    case True
    with snoc.prems(2) have "tool_name x = tool_name t" by simp
    with True show ?thesis by (simp add: build_toolNameMap_snoc)
  next
    case False
    with snoc.prems(1) have "t \<in> set xs" by auto
    with snoc.IH snoc.prems(2) have "build_toolNameMap xs (normalizeToolName (tool_name t)) = Some (tool_name t)"
      by simp
    with False show ?thesis by (simp add: build_toolNameMap_snoc)
  qed
qed

lemma build_toolNameMap_range:
  "build_toolNameMap tools n = Some orig \<Longrightarrow>
     \<exists>t'\<in>set tools. orig = tool_name t' \<and> n = normalizeToolName (tool_name t')"
proof (induction tools rule: rev_induct)
  case Nil
  then show ?case by (simp add: build_toolNameMap_def)
next
  case (snoc x xs)
  then show ?case
    by (auto simp: build_toolNameMap_snoc split: if_splits)
qed

lemma original_name_never_rewritten:
  assumes "t \<in> set tools" and "CHR ''.'' \<in> set (tool_name t)"
      and "\<forall>t'\<in>set tools. normalizeToolName (tool_name t') = normalizeToolName (tool_name t)
             \<longrightarrow> tool_name t' = tool_name t"
  shows "original_name (build_toolNameMap tools) n \<noteq> normalizeToolName (tool_name t)"
proof
  assume eq: "original_name (build_toolNameMap tools) n = normalizeToolName (tool_name t)"
  have lk: "build_toolNameMap tools (normalizeToolName (tool_name t)) = Some (tool_name t)"
    using build_toolNameMap_lookup [OF assms(1,3)] .
  have ne: "tool_name t \<noteq> []" using assms(2) by auto
  show False
  proof (cases "truthy (build_toolNameMap tools n)")
    case True
    then obtain orig where o: "build_toolNameMap tools n = Some orig"
      by (auto simp: truthy_def split: option.splits)
    with True eq have e: "orig = normalizeToolName (tool_name t)"
      by (simp add: original_name_def or_empty_def)
    from build_toolNameMap_range [OF o] obtain t' where
      t': "t' \<in> set tools" "orig = tool_name t'" "n = normalizeToolName (tool_name t')" by blast
    from e t'(2) have "normalizeToolName (tool_name t') = normalizeToolName (tool_name t)"
      by (simp add: normalizeToolName_idem)
    with assms(3) t'(1) have "tool_name t' = tool_name t" by simp
    with e t'(2) have "normalizeToolName (tool_name t) = tool_name t" by simp
    with normalizeToolName_changes [OF assms(2)] show False by simp
  next
    case False
    with eq have "n = normalizeToolName (tool_name t)" by (simp add: original_name_def)
    with False lk ne show False by (simp add: truthy_def)
  qed
qed

lemma openai_tool_uses_origin:
  "ToolUse tc \<in> set (fst (openai_tool_uses parse m tcs)) \<Longrightarrow>
     \<exists>a. Some a \<in> set tcs \<and> tc_id tc = acc_id a \<and> tc_name tc = original_name m (acc_name a)"
proof (induction parse m tcs rule: openai_tool_uses.induct)
  case (1 parse m)
  then show ?case by simp
next
  case (2 parse m rest)
  then show ?case by simp
next
  case (3 parse m a rest)
  show ?case
  proof (cases "parse (acc_arguments a)")
    case (Inl e)
    with "3.prems" show ?thesis by simp
  next
    case (Inr inp)
    obtain us r where rec: "openai_tool_uses parse m rest = (us, r)"
      by (cases "openai_tool_uses parse m rest")
    from "3.prems" Inr rec have
      "tc = \<lparr>tc_id = acc_id a, tc_name = original_name m (acc_name a), tc_input = inp\<rparr>
       \<or> ToolUse tc \<in> set us" by auto
    then show ?thesis
    proof
      assume "tc = \<lparr>tc_id = acc_id a, tc_name = original_name m (acc_name a), tc_input = inp\<rparr>"
      then show ?thesis by auto
    next
      assume "ToolUse tc \<in> set us"
      with "3.IH" [OF Inr] rec show ?thesis by auto
    qed
  qed
qed

lemma update_not_tool_use: "list_all is_update ups \<Longrightarrow> ToolUse tc \<notin> set ups"
  by (auto simp: list_all_iff)

lemma openai_body_map:
  "snd (OpenAIAdapter_body parse create model m0 messages tools sys) = build_toolNameMap tools"
  by (simp add: OpenAIAdapter_body_def Let_def split: sum.splits prod.splits option.splits)

lemma openai_body_fresh:
  "OpenAIAdapter_body parse create model m1 messages tools sys =
   OpenAIAdapter_body parse create model m0 messages tools sys"
  by (simp add: OpenAIAdapter_body_def)

lemma openai_body_origin:
  assumes "create (openai_request_of model messages tools sys) = Inr (chunks, thrown)"
      and "ToolUse tc \<in> set (fst (fst (OpenAIAdapter_body parse create model m0 messages tools sys)))"
  shows "\<exists>a. Some a \<in> set (streamed_calls chunks) \<and> tc_id tc = acc_id a \<and>
             tc_name tc = original_name (build_toolNameMap tools) (acc_name a)"
proof -
  obtain c tcs ups where
    f: "foldl openai_chunk ([], [], [MessageStart]) chunks = (c, tcs, [MessageStart] @ ups)"
       "list_all is_update ups"
    using openai_stream_events by blast
  have sc: "streamed_calls chunks = tcs" using f(1) by (simp add: streamed_calls_def)
  have nu: "ToolUse tc \<notin> set ups" using update_not_tool_use [OF f(2)] .
  show ?thesis
  proof (cases "thrown = None \<and> tcs \<noteq> []")
    case True
    obtain us r where u: "openai_tool_uses parse (build_toolNameMap tools) tcs = (us, r)"
      by (cases "openai_tool_uses parse (build_toolNameMap tools) tcs")
    from assms f True u nu have "ToolUse tc \<in> set us"
      by (auto simp: OpenAIAdapter_body_def Let_def)
    with openai_tool_uses_origin [of tc parse "build_toolNameMap tools" tcs] u sc
    show ?thesis by simp
  next
    case False
    with assms f nu have False
      by (auto simp: OpenAIAdapter_body_def Let_def split: option.splits)
    then show ?thesis ..
  qed
qed

lemma catch_error_tool_use:
  "ToolUse tc \<in> set (fst (catch_error r)) \<longleftrightarrow> ToolUse tc \<in> set (fst r)"
  by (cases r) (auto simp: catch_error_def split: option.splits thrown.splits)

lemma openai_sendMessage_fst:
  "fst (OpenAIAdapter_sendMessage parse create model m0 messages tools sys) =
   fst (catch_error (fst (OpenAIAdapter_body parse create model m0 messages tools sys)))"
  by (simp add: OpenAIAdapter_sendMessage_def split: prod.splits)

lemma openai_sendMessage_snd:
  "snd (OpenAIAdapter_sendMessage parse create model m0 messages tools sys) = build_toolNameMap tools"
  using openai_body_map [of parse create model m0 messages tools sys]
  by (cases "OpenAIAdapter_body parse create model m0 messages tools sys")
     (auto simp: OpenAIAdapter_sendMessage_def)

lemma anthropic_blocks_names:
  "map tc_name (snd (anthropic_blocks (t, tcs) bs)) = map tc_name tcs @ block_names bs"
  by (induction "(t, tcs)" bs arbitrary: t tcs rule: anthropic_blocks.induct) simp_all

lemma tool_uses_append: "tool_uses (xs @ ys) = tool_uses xs @ tool_uses ys"
  by (induction xs rule: tool_uses.induct) simp_all

lemma tool_uses_map_ToolUse: "tool_uses (map ToolUse tcs) = tcs"
  by (induction tcs) simp_all

lemma anthropic_names:
  assumes "create (anthropic_request_of messages tools sys) = Inr content"
  shows "map tc_name (tool_uses (AnthropicAdapter_sendMessage create messages tools sys)) = block_names content"
proof -
  obtain t tcs where b: "anthropic_blocks ([], []) content = (t, tcs)"
    by (cases "anthropic_blocks ([], []) content")
  have n: "map tc_name tcs = block_names content"
    using anthropic_blocks_names [of "[]" "[]" content] b by simp
  show ?thesis
    using assms b n
    by (auto simp: AnthropicAdapter_sendMessage_def AnthropicAdapter_body_def catch_error_def
          tool_uses_append tool_uses_map_ToolUse)
qed

lemma google_no_tool_use: "tool_uses (GoogleAdapter_sendMessage chat model messages tools sys) = []"
  by (simp add: GoogleAdapter_sendMessage_def GoogleAdapter_body_def catch_error_def
        split: sum.splits thrown.splits)

text \<open>
  Claim C3, amended. Let a tool of the catalog have a name with a \<open>.\<close>, and let no tool
  of the catalog with another name be rewritten to the same name. Then, for the OpenAI
  adapter: after \<open>sendMessage\<close> the map sends the rewritten name to the original one;
  the lookup that builds a \<open>tool_use\<close> event turns the rewritten name into the original
  one; no \<open>tool_use\<close> event of the call carries the rewritten name; every \<open>tool_use\<close>
  event carries the name that this lookup gives for a call accumulated from the stream;
  and the events and the map after the call do not depend on the map before the call.
  The Anthropic adapter rewrites nothing: it sends the catalog as it is and its
  \<open>tool_use\<close> events carry the names of the provider's reply. The Google adapter emits
  no \<open>tool_use\<close> event.
\<close>

theorem C3_original_name_without_collision:
  assumes "t \<in> set tools" and "CHR ''.'' \<in> set (tool_name t)"
      and "\<forall>t'\<in>set tools. normalizeToolName (tool_name t') = normalizeToolName (tool_name t)
             \<longrightarrow> tool_name t' = tool_name t"
  shows "snd (OpenAIAdapter_sendMessage parse create model m0 messages tools sys)
           (normalizeToolName (tool_name t)) = Some (tool_name t)
       \<and> original_name (snd (OpenAIAdapter_sendMessage parse create model m0 messages tools sys))
           (normalizeToolName (tool_name t)) = tool_name t
       \<and> (\<forall>tc. ToolUse tc \<in> set (fst (OpenAIAdapter_sendMessage parse create model m0 messages tools sys))
             \<longrightarrow> tc_name tc \<noteq> normalizeToolName (tool_name t))
       \<and> (\<forall>chunks thrown tc.
             create (openai_request_of model messages tools sys) = Inr (chunks, thrown) \<and>
             ToolUse tc \<in> set (fst (OpenAIAdapter_sendMessage parse create model m0 messages tools sys))
             \<longrightarrow> (\<exists>a. Some a \<in> set (streamed_calls chunks) \<and> tc_id tc = acc_id a \<and>
                      tc_name tc =
                        original_name
                          (snd (OpenAIAdapter_sendMessage parse create model m0 messages tools sys))
                          (acc_name a)))
       \<and> OpenAIAdapter_sendMessage parse create model m1 messages tools sys =
           OpenAIAdapter_sendMessage parse create model m0 messages tools sys
       \<and> ar_tools (anthropic_request_of messages tools sys) = Some tools
       \<and> (acreate (anthropic_request_of messages tools sys) = Inr content \<longrightarrow>
             map tc_name (tool_uses (AnthropicAdapter_sendMessage acreate messages tools sys)) =
               block_names content)
       \<and> tool_uses (GoogleAdapter_sendMessage chat gmodel messages tools sys) = []"
proof -
  have lk: "build_toolNameMap tools (normalizeToolName (tool_name t)) = Some (tool_name t)"
    using build_toolNameMap_lookup [OF assms(1,3)] .
  have ne: "tool_name t \<noteq> []" using assms(2) by auto
  have a: "original_name (build_toolNameMap tools) (normalizeToolName (tool_name t)) = tool_name t"
    using lk ne by (simp add: original_name_def truthy_def or_empty_def)
  have b: "\<forall>tc. ToolUse tc \<in> set (fst (OpenAIAdapter_sendMessage parse create model m0 messages tools sys))
             \<longrightarrow> tc_name tc \<noteq> normalizeToolName (tool_name t)"
  proof (intro allI impI)
    fix tc
    assume "ToolUse tc \<in> set (fst (OpenAIAdapter_sendMessage parse create model m0 messages tools sys))"
    then have u: "ToolUse tc \<in> set (fst (fst (OpenAIAdapter_body parse create model m0 messages tools sys)))"
      by (simp add: openai_sendMessage_fst catch_error_tool_use)
    obtain r where c: "create (openai_request_of model messages tools sys) = r" by simp
    show "tc_name tc \<noteq> normalizeToolName (tool_name t)"
    proof (cases r)
      case (Inl e)
      with c u show ?thesis by (simp add: OpenAIAdapter_body_def)
    next
      case (Inr stream)
      obtain chunks thrown where "stream = (chunks, thrown)" by (cases stream)
      with c Inr have "create (openai_request_of model messages tools sys) = Inr (chunks, thrown)" by simp
      from openai_body_origin [OF this u] obtain a :: acc_call where
        "tc_name tc = original_name (build_toolNameMap tools) (acc_name a)" by blast
      with original_name_never_rewritten [OF assms] show ?thesis by simp
    qed
  qed
  have d: "\<forall>chunks thrown tc.
             create (openai_request_of model messages tools sys) = Inr (chunks, thrown) \<and>
             ToolUse tc \<in> set (fst (OpenAIAdapter_sendMessage parse create model m0 messages tools sys))
             \<longrightarrow> (\<exists>a. Some a \<in> set (streamed_calls chunks) \<and> tc_id tc = acc_id a \<and>
                      tc_name tc = original_name (build_toolNameMap tools) (acc_name a))"
    using openai_body_origin [of create model messages tools sys _ _ _ parse m0]
    by (simp add: openai_sendMessage_fst catch_error_tool_use)
  have e: "OpenAIAdapter_sendMessage parse create model m1 messages tools sys =
           OpenAIAdapter_sendMessage parse create model m0 messages tools sys"
    by (simp add: OpenAIAdapter_sendMessage_def openai_body_fresh [of parse create model m1 messages tools sys m0])
  have f: "ar_tools (anthropic_request_of messages tools sys) = Some tools"
    using assms(1) by (cases tools) (simp_all add: anthropic_request_of_def)
  have g: "acreate (anthropic_request_of messages tools sys) = Inr content \<longrightarrow>
             map tc_name (tool_uses (AnthropicAdapter_sendMessage acreate messages tools sys)) =
               block_names content"
    using anthropic_names [of acreate messages tools sys content] by blast
  have h: "tool_uses (GoogleAdapter_sendMessage chat gmodel messages tools sys) = []"
    by (rule google_no_tool_use)
  show ?thesis
    using lk a b d e f g h by (simp add: openai_sendMessage_snd)
qed

text \<open>
  Claim C3 as stated fails when two tools of the catalog are rewritten to the same name:
  with the catalog \<open>a.b.c\<close>, \<open>a_b_c\<close> the later entry wins in the map, and the
  \<open>tool_use\<close> event for the provider's call of \<open>a_b_c\<close> carries \<open>a_b_c\<close>, the rewritten
  form of the registered tool \<open>a.b.c\<close>.
\<close>

theorem C3_rewritten_name_counterexample:
  "dotted_tool \<in> set [dotted_tool, plain_tool]
   \<and> fst (OpenAIAdapter_sendMessage parse0 (call_stream ''a_b_c'' ''{}'') ''gpt-4'' Map.empty
            [plain_message User ''q''] [dotted_tool, plain_tool] ''sys'') =
       [MessageStart,
        ToolUse \<lparr>tc_id = ''call_1'', tc_name = normalizeToolName (tool_name dotted_tool),
                  tc_input = JObj []\<rparr>]
   \<and> normalizeToolName (tool_name dotted_tool) \<noteq> tool_name dotted_tool"
  by code_simp

theorem C3_original_name_without_collision_witness:
  "dotted_tool \<in> set [dotted_tool]
   \<and> CHR ''.'' \<in> set (tool_name dotted_tool)
   \<and> normalizeToolName (tool_name dotted_tool) = ''a_b_c''
   \<and> fst (OpenAIAdapter_sendMessage parse0 (call_stream ''a_b_c'' ''{}'') ''gpt-4'' stale_map
            [plain_message User ''q''] [dotted_tool] ''sys'') =
       [MessageStart, ToolUse \<lparr>tc_id = ''call_1'', tc_name = ''a.b.c'', tc_input = JObj []\<rparr>]
   \<and> snd (OpenAIAdapter_sendMessage parse0 (call_stream ''a_b_c'' ''{}'') ''gpt-4'' stale_map
            [plain_message User ''q''] [dotted_tool] ''sys'') ''a_b_c'' = Some ''a.b.c''"
proof -
  have h1: "dotted_tool \<in> set [dotted_tool]" by simp
  have h2: "CHR ''.'' \<in> set (tool_name dotted_tool)" by (simp add: dotted_tool_def)
  have h3: "\<forall>t'\<in>set [dotted_tool].
         normalizeToolName (tool_name t') = normalizeToolName (tool_name dotted_tool)
           \<longrightarrow> tool_name t' = tool_name dotted_tool" by simp
  have n: "normalizeToolName (tool_name dotted_tool) = ''a_b_c''" "tool_name dotted_tool = ''a.b.c''"
    by (simp_all add: dotted_tool_def normalizeToolName_def)
  have e: "fst (OpenAIAdapter_sendMessage parse0 (call_stream ''a_b_c'' ''{}'') ''gpt-4'' Map.empty
            [plain_message User ''q''] [dotted_tool] ''sys'') =
       [MessageStart, ToolUse \<lparr>tc_id = ''call_1'', tc_name = ''a.b.c'', tc_input = JObj []\<rparr>]"
    by code_simp
  show ?thesis
    using h1 h2 h3 n e
      C3_original_name_without_collision [OF h1 h2 h3, of parse0 "call_stream ''a_b_c'' ''{}''"
        "''gpt-4''" Map.empty "[plain_message User ''q'']" "''sys''" stale_map]
    by simp
qed


section \<open>One turn of the agent loop\<close>

lemma tool_uses_results: "tool_uses (map2 ToolResult calls results) = []"
  by (induction calls arbitrary: results) (auto split: list.splits simp: zip_Cons1)

lemma completions_results: "completions (map2 ToolResult calls results) = []"
  by (induction calls arbitrary: results) (auto split: list.splits simp: zip_Cons1)

text \<open>The loop over the buffered calls, however it ends.\<close>

lemma run_tool_calls_trace:
  assumes "run_tool_calls world s calls = (r, t)"
  shows "registeredTools t = registeredTools s \<and>
     (\<exists>results. length results \<le> length calls \<and>
        (r = Returns () \<longrightarrow> length results = length calls) \<and>
        conversationHistory t = conversationHistory s @ map2 tool_message calls results \<and>
        emitted (effects t) = emitted (effects s) @ map2 ToolResult calls results) \<and>
     (\<exists>sends. owner_sends (effects t) = owner_sends (effects s) @ sends \<and>
        (\<forall>x\<in>set sends. \<exists>tc\<in>set calls. \<exists>reg.
            map_of (registeredTools s) (tc_name tc) = Some reg \<and>
            x = (reg_extensionId reg, execute_request tc)))"
  using assms
proof (induction calls arbitrary: s)
  case Nil
  then show ?case by auto
next
  case (Cons tc rest)
  let ?s0 = "s\<lparr>clock := Suc (clock s)\<rparr>"
  obtain r1 s1 where e: "executeTool (world (clock s)) ?s0 tc = (r1, s1)"
    by (cases "executeTool (world (clock s)) ?s0 tc")
  note tr = executeTool_trace [OF e]
  have reg1: "registeredTools s1 = registeredTools s" using tr by simp
  have h1: "conversationHistory s1 = conversationHistory s" using tr by simp
  have em1: "emitted (effects s1) = emitted (effects s)" using tr by simp
  have "owner_sends (effects s1) = owner_sends (effects s) \<or>
        (\<exists>reg. map_of (registeredTools s) (tc_name tc) = Some reg \<and>
           owner_sends (effects s1) = owner_sends (effects s) @ [(reg_extensionId reg, execute_request tc)])"
    using tr by auto
  then obtain sends1 where
    os1: "owner_sends (effects s1) = owner_sends (effects s) @ sends1"
    and in1: "\<forall>x\<in>set sends1. \<exists>reg. map_of (registeredTools s) (tc_name tc) = Some reg \<and>
                x = (reg_extensionId reg, execute_request tc)"
    by (elim disjE exE) (rule that [of "[]"], simp, simp, rule that, auto)
  show ?case
  proof (cases r1)
    case (Returns res)
    let ?s2 = "push_history (tool_message tc res) (emit (Emit (ToolResult tc res)) s1)"
    from Cons.prems e Returns have run: "run_tool_calls world ?s2 rest = (r, t)" by simp
    from Cons.IH [OF run] obtain results sends where
      ih: "registeredTools t = registeredTools ?s2"
        "length results \<le> length rest" "r = Returns () \<longrightarrow> length results = length rest"
        "conversationHistory t = conversationHistory ?s2 @ map2 tool_message rest results"
        "emitted (effects t) = emitted (effects ?s2) @ map2 ToolResult rest results"
        "owner_sends (effects t) = owner_sends (effects ?s2) @ sends"
        "\<forall>x\<in>set sends. \<exists>tc\<in>set rest. \<exists>reg.
            map_of (registeredTools ?s2) (tc_name tc) = Some reg \<and>
            x = (reg_extensionId reg, execute_request tc)"
      by blast
    have reg2: "registeredTools ?s2 = registeredTools s"
      using reg1 by (simp add: push_history_def emit_def)
    have a: "registeredTools t = registeredTools s" using ih(1) reg2 by simp
    have b: "length (res # results) \<le> length (tc # rest) \<and>
        (r = Returns () \<longrightarrow> length (res # results) = length (tc # rest)) \<and>
        conversationHistory t = conversationHistory s @ map2 tool_message (tc # rest) (res # results) \<and>
        emitted (effects t) = emitted (effects s) @ map2 ToolResult (tc # rest) (res # results)"
      using ih(2,3,4,5) h1 em1 by (simp add: push_history_def emit_def emitted_append)
    have c: "owner_sends (effects t) = owner_sends (effects s) @ (sends1 @ sends)"
      using ih(6) os1 by (simp add: push_history_def emit_def owner_sends_append)
    have d: "\<forall>x\<in>set (sends1 @ sends). \<exists>tc'\<in>set (tc # rest). \<exists>reg.
            map_of (registeredTools s) (tc_name tc') = Some reg \<and>
            x = (reg_extensionId reg, execute_request tc')"
      using in1 ih(7) reg2 by auto
    from a b c d show ?thesis by blast
  next
    case (Throws err)
    with Cons.prems e have rt: "r = Throws err" "t = s1" by simp_all
    have b: "length ([] :: tool_execution_response list) \<le> length (tc # rest) \<and>
        (r = Returns () \<longrightarrow> length ([] :: tool_execution_response list) = length (tc # rest)) \<and>
        conversationHistory t = conversationHistory s @ map2 tool_message (tc # rest) [] \<and>
        emitted (effects t) = emitted (effects s) @ map2 ToolResult (tc # rest) []"
      using rt h1 em1 by simp
    have d: "\<forall>x\<in>set sends1. \<exists>tc'\<in>set (tc # rest). \<exists>reg.
            map_of (registeredTools s) (tc_name tc') = Some reg \<and>
            x = (reg_extensionId reg, execute_request tc')"
      using in1 by auto
    from rt reg1 b os1 d show ?thesis by blast
  next
    case Pending
    with executeTool_settles [of "world (clock s)" ?s0 tc] e show ?thesis by simp
  qed
qed

lemma loop_turn_unfold:
  "loop_turn stringify world ad tools s =
     (let evs = ad (clock s) (conversationHistory s) tools systemPrompt;
          s1 = s\<lparr>clock := Suc (clock s),
                 conversationHistory :=
                   conversationHistory s @ map (plain_message Assistant) (completions evs),
                 effects := effects s @ map Emit evs\<rparr>
      in if tool_uses evs \<noteq> []
         then (case run_tool_calls world
                        (push_history
                           \<lparr>msg_role = Assistant, msg_content = None,
                            msg_tool_calls = Some (map (tool_call_ref_of stringify) (tool_uses evs)),
                            msg_tool_call_id = None\<rparr> s1)
                        (tool_uses evs) of
                   (Returns u, s2) \<Rightarrow> (Returns True, s2)
                 | (Throws e, s2) \<Rightarrow> (Throws e, s2)
                 | (Pending, s2) \<Rightarrow> (Pending, s2))
         else (Returns False, s1))"
  by (simp add: loop_turn_def collect_events Let_def)

lemma snd_turn_case:
  "snd (case x of (Returns u, s2) \<Rightarrow> (Returns True, s2)
                | (Throws e, s2) \<Rightarrow> (Throws e, s2)
                | (Pending, s2) \<Rightarrow> (Pending, s2)) = snd x"
  by (simp split: prod.splits outcome.splits)

text \<open>
  Claim C10. In a turn that buffers tool calls, the assistant message appended to the
  history records each call under the normalized name (every \<open>.\<close> replaced by \<open>_\<close>);
  the \<open>tool_use\<close> events forwarded to the caller are the buffered calls themselves, with
  their original names; every message sent to an owner in that turn names, as
  \<open>toolName\<close>, the original name of a buffered call, the name under which the registry
  holds the tool; and for a name with a \<open>.\<close> the normalized name differs from it.
\<close>

theorem C10_history_uses_normalized_names:
  assumes "loop_turn stringify world ad tools s = (r, t)"
      and "calls = tool_uses (ad (clock s) (conversationHistory s) tools systemPrompt)"
      and "calls \<noteq> []"
  shows "(\<exists>results.
            conversationHistory t =
              conversationHistory s
              @ map (plain_message Assistant)
                  (completions (ad (clock s) (conversationHistory s) tools systemPrompt))
              @ [\<lparr>msg_role = Assistant, msg_content = None,
                  msg_tool_calls = Some (map (tool_call_ref_of stringify) calls),
                  msg_tool_call_id = None\<rparr>]
              @ map2 tool_message calls results)
       \<and> map (\<lambda>tc. fn_name (ref_function (tool_call_ref_of stringify tc))) calls =
           map (\<lambda>tc. normalizeToolName (tc_name tc)) calls
       \<and> tool_uses (emitted (effects t)) = tool_uses (emitted (effects s)) @ calls
       \<and> (\<exists>sends. owner_sends (effects t) = owner_sends (effects s) @ sends \<and>
            (\<forall>x\<in>set sends. \<exists>tc\<in>set calls.
                ter_toolName (snd x) = tc_name tc \<and>
                map_of (registeredTools s) (tc_name tc) \<noteq> None))
       \<and> (\<forall>tc\<in>set calls. CHR ''.'' \<in> set (tc_name tc) \<longrightarrow>
             normalizeToolName (tc_name tc) \<noteq> tc_name tc)"
proof -
  let ?evs = "ad (clock s) (conversationHistory s) tools systemPrompt"
  let ?s1 = "s\<lparr>clock := Suc (clock s),
                 conversationHistory :=
                   conversationHistory s @ map (plain_message Assistant) (completions ?evs),
                 effects := effects s @ map Emit ?evs\<rparr>"
  let ?msg = "\<lparr>msg_role = Assistant, msg_content = None,
                msg_tool_calls = Some (map (tool_call_ref_of stringify) calls),
                msg_tool_call_id = None\<rparr>"
  let ?s2 = "push_history ?msg ?s1"
  obtain r2 t2 where run: "run_tool_calls world ?s2 calls = (r2, t2)"
    by (cases "run_tool_calls world ?s2 calls")
  have t: "t = t2"
    using assms run by (auto simp: loop_turn_unfold Let_def split: outcome.splits)
  from run_tool_calls_trace [OF run] obtain results sends where
    tr: "conversationHistory t2 = conversationHistory ?s2 @ map2 tool_message calls results"
        "emitted (effects t2) = emitted (effects ?s2) @ map2 ToolResult calls results"
        "owner_sends (effects t2) = owner_sends (effects ?s2) @ sends"
        "\<forall>x\<in>set sends. \<exists>tc\<in>set calls. \<exists>reg.
            map_of (registeredTools ?s2) (tc_name tc) = Some reg \<and>
            x = (reg_extensionId reg, execute_request tc)"
    by blast
  have a: "conversationHistory t =
              conversationHistory s @ map (plain_message Assistant) (completions ?evs)
              @ [?msg] @ map2 tool_message calls results"
    using tr(1) t by (simp add: push_history_def)
  have b: "map (\<lambda>tc. fn_name (ref_function (tool_call_ref_of stringify tc))) calls =
           map (\<lambda>tc. normalizeToolName (tc_name tc)) calls"
    by (simp add: tool_call_ref_of_def)
  have c: "tool_uses (emitted (effects t)) = tool_uses (emitted (effects s)) @ calls"
    using tr(2) t assms(2)
    by (simp add: push_history_def emitted_append emitted_map_Emit tool_uses_append tool_uses_results)
  have d1: "owner_sends (effects t) = owner_sends (effects s) @ sends"
    using tr(3) t by (simp add: push_history_def owner_sends_append owner_sends_map_Emit)
  have d2: "\<forall>x\<in>set sends. \<exists>tc\<in>set calls.
                ter_toolName (snd x) = tc_name tc \<and>
                map_of (registeredTools s) (tc_name tc) \<noteq> None"
    using tr(4) by (fastforce simp: push_history_def execute_request_def)
  have e: "\<forall>tc\<in>set calls. CHR ''.'' \<in> set (tc_name tc) \<longrightarrow>
             normalizeToolName (tc_name tc) \<noteq> tc_name tc"
    using normalizeToolName_changes by blast
  from a b c d1 d2 e show ?thesis by blast
qed


theorem C10_history_uses_normalized_names_witness:
  "loop_turn stringify0 granting_world two_calls_adapter (getAITools click_registry) click_registry =
     (fst (loop_turn stringify0 granting_world two_calls_adapter (getAITools click_registry) click_registry),
      snd (loop_turn stringify0 granting_world two_calls_adapter (getAITools click_registry) click_registry))
   \<and> [first_click, second_click] =
       tool_uses (two_calls_adapter (clock click_registry) (conversationHistory click_registry)
                    (getAITools click_registry) systemPrompt)
   \<and> [first_click, second_click] \<noteq> []
   \<and> CHR ''.'' \<in> set (tc_name first_click)
   \<and> fn_name (ref_function (tool_call_ref_of stringify0 first_click)) = ''nav_click''
   \<and> normalizeToolName (tc_name first_click) \<noteq> tc_name first_click
   \<and> tool_uses (emitted (effects
        (snd (loop_turn stringify0 granting_world two_calls_adapter (getAITools click_registry)
                click_registry)))) = [first_click, second_click]
   \<and> map fst (owner_sends (effects
        (snd (loop_turn stringify0 granting_world two_calls_adapter (getAITools click_registry)
                click_registry)))) = [''ext-1'', ''ext-1'']"
proof -
  have h1: "loop_turn stringify0 granting_world two_calls_adapter (getAITools click_registry) click_registry =
     (fst (loop_turn stringify0 granting_world two_calls_adapter (getAITools click_registry) click_registry),
      snd (loop_turn stringify0 granting_world two_calls_adapter (getAITools click_registry) click_registry))"
    by simp
  have h2: "[first_click, second_click] =
       tool_uses (two_calls_adapter (clock click_registry) (conversationHistory click_registry)
                    (getAITools click_registry) systemPrompt)"
    by code_simp
  have h3: "[first_click, second_click] \<noteq> []" by simp
  have h4: "CHR ''.'' \<in> set (tc_name first_click)" by (simp add: first_click_def)
  have h5: "fn_name (ref_function (tool_call_ref_of stringify0 first_click)) = ''nav_click''"
    by code_simp
  have h6: "emitted (effects click_registry) = []" by code_simp
  have h7: "map fst (owner_sends (effects
        (snd (loop_turn stringify0 granting_world two_calls_adapter (getAITools click_registry)
                click_registry)))) = [''ext-1'', ''ext-1'']" by code_simp
  note c = C10_history_uses_normalized_names [OF h1 h2 h3]
  from c have "\<forall>tc\<in>set [first_click, second_click]. CHR ''.'' \<in> set (tc_name tc) \<longrightarrow>
             normalizeToolName (tc_name tc) \<noteq> tc_name tc" by blast
  with h4 have e: "normalizeToolName (tc_name first_click) \<noteq> tc_name first_click" by simp
  from c have "tool_uses (emitted (effects
        (snd (loop_turn stringify0 granting_world two_calls_adapter (getAITools click_registry)
                click_registry)))) =
      tool_uses (emitted (effects click_registry)) @ [first_click, second_click]" by blast
  with h6 have u: "tool_uses (emitted (effects
        (snd (loop_turn stringify0 granting_world two_calls_adapter (getAITools click_registry)
                click_registry)))) = [first_click, second_click]" by simp
  from h1 h2 h3 h4 h5 h7 e u show ?thesis by blast
qed


lemma completions_append: "completions (xs @ ys) = completions xs @ completions ys"
  by (induction xs rule: completions.induct) simp_all

lemma updates_project:
  "list_all is_update ups \<Longrightarrow> tool_uses ups = [] \<and> completions ups = []"
  by (induction ups rule: tool_uses.induct) simp_all


lemma catch_error_project:
  "tool_uses (fst (catch_error r)) = tool_uses (fst r) \<and>
   completions (fst (catch_error r)) = completions (fst r)"
  by (cases r)
     (auto simp: catch_error_def tool_uses_append completions_append
           split: option.splits thrown.splits)



text \<open>A call of \<open>sendMessage\<close> that emits a \<open>tool_use\<close> event returns.\<close>

lemma anthropic_tool_use_settles:
  assumes "tool_uses (AnthropicAdapter_sendMessage create messages tools sys) \<noteq> []"
  shows "AnthropicAdapter_settles create messages tools sys = Returns ()"
proof (cases "create (anthropic_request_of messages tools sys)")
  case (Inl e)
  with assms show ?thesis
    by (cases e)
       (simp_all add: AnthropicAdapter_sendMessage_def AnthropicAdapter_settles_def
          AnthropicAdapter_body_def catch_error_def)
next
  case (Inr content)
  then show ?thesis
    by (simp add: AnthropicAdapter_settles_def AnthropicAdapter_body_def catch_error_def
          split: prod.splits)
qed

lemma openai_tool_uses_not_nullish: "snd (openai_tool_uses parse m tcs) \<noteq> Some Nullish"
  by (induction parse m tcs rule: openai_tool_uses.induct)
     (auto split: sum.splits prod.splits)

lemma openai_tool_use_settles:
  assumes "tool_uses (fst (OpenAIAdapter_sendMessage parse create model m0 messages tools sys)) \<noteq> []"
  shows "OpenAIAdapter_settles parse create model m0 messages tools sys = Returns ()"
proof -
  obtain evs r m where b: "OpenAIAdapter_body parse create model m0 messages tools sys = ((evs, r), m)"
    by (cases "OpenAIAdapter_body parse create model m0 messages tools sys") auto
  have tu: "tool_uses evs \<noteq> []"
    using assms b by (simp add: openai_sendMessage_fst catch_error_project)
  have "r \<noteq> Some Nullish"
  proof
    assume n: "r = Some Nullish"
    show False
    proof (cases "create (openai_request_of model messages tools sys)")
      case (Inl e)
      with b tu show False by (auto simp: OpenAIAdapter_body_def Let_def)
    next
      case (Inr stream)
      obtain chunks thrown where st: "stream = (chunks, thrown)" by (cases stream)
      obtain c tcs ups where
        f: "foldl openai_chunk ([], [], [MessageStart]) chunks = (c, tcs, [MessageStart] @ ups)"
           "list_all is_update ups"
        using openai_stream_events by blast
      have u0: "tool_uses ups = []" using updates_project [OF f(2)] by simp
      show False
      proof (cases thrown)
        case (Some e)
        with b Inr st f tu u0 show False
          by (auto simp: OpenAIAdapter_body_def Let_def tool_uses_append)
      next
        case None
        show False
        proof (cases "tcs = []")
          case True
          with b Inr st f None n show False
            by (auto simp: OpenAIAdapter_body_def Let_def)
        next
          case False
          obtain us r' where u: "openai_tool_uses parse (build_toolNameMap tools) tcs = (us, r')"
            by (cases "openai_tool_uses parse (build_toolNameMap tools) tcs")
          from b Inr st f None False u have "r = r'"
            by (auto simp: OpenAIAdapter_body_def Let_def)
          with n u openai_tool_uses_not_nullish [of parse "build_toolNameMap tools" tcs]
          show False by simp
        qed
      qed
    qed
  qed
  then show ?thesis
    using b
    by (cases r; cases "the r")
       (auto simp: OpenAIAdapter_settles_def catch_error_def)
qed





section \<open>A permission prompt that times out\<close>

text \<open>
  Claim C1 does not hold of the code. The tool \<open>nav.click\<close> is registered, the model asks
  for two clicks in one turn, the permission check asks for a prompt and no response
  arrives within the 60 seconds. The timer removes the pending entry and rejects the
  wait; \<open>executeTool\<close> and \<open>executePrompt\<close> have no \<open>try\<close> around the wait, so the prompt
  ends with the error \<open>Permission request timeout\<close>: no message is sent to the owner,
  no \<open>tool_result\<close> is reported for either call, and the port gets \<open>AGENT_ERROR\<close>.
\<close>

theorem C1_timeout_rejection_ends_the_prompt:
  "map_option fst (executePrompt 3 stringify0 silent_world click_registry ''click it'') =
     Some (Throws ''Permission request timeout'')
   \<and> pendingPermissionRequests
        (snd (the (executePrompt 3 stringify0 silent_world click_registry ''click it''))) ''perm-1-0.5'' = None
   \<and> owner_sends (effects
        (snd (the (executePrompt 3 stringify0 silent_world click_registry ''click it'')))) = []
   \<and> filter is_tool_result (emitted (effects
        (snd (the (executePrompt 3 stringify0 silent_world click_registry ''click it''))))) = []
   \<and> last (effects
        (snd (the (on_execute_prompt 3 stringify0 silent_world click_registry ''click it'')))) =
       AgentError ''Permission request timeout''"
  by code_simp

text \<open>
  The same two calls when the permission check allows them: each call is sent to its
  owner and its result is reported before the next call is sent.
\<close>

lemma granted_turn_trace:
  "effects (snd (loop_turn stringify0 granting_world two_calls_adapter (getAITools click_registry)
                   click_registry)) =
     [Emit MessageStart, Emit (ToolUse first_click), Emit (ToolUse second_click),
      OwnerSend ''ext-1'' (execute_request first_click),
      Emit (ToolResult first_click
              \<lparr>resp_content = Some [text_block ''ok''], resp_details = None, resp_error = None\<rparr>),
      OwnerSend ''ext-1'' (execute_request second_click),
      Emit (ToolResult second_click
              \<lparr>resp_content = Some [text_block ''ok''], resp_details = None, resp_error = None\<rparr>)]"
  by code_simp

text \<open>
  Claim C6 does not hold of the code in the same situation. The turn buffers two calls;
  the assistant message with both calls is appended, then the wait of the first call is
  rejected and the turn ends: the history holds no tool message for either call.
  (When every \<open>executeTool\<close> of the turn returns, the tool messages follow in the order
  of the calls: lemma \<open>run_tool_calls_returns\<close>.)
\<close>

theorem C6_timeout_leaves_calls_without_tool_messages:
  "fst (loop_turn stringify0 silent_world two_calls_adapter (getAITools click_registry) click_registry) =
     Throws ''Permission request timeout''
   \<and> conversationHistory
        (snd (loop_turn stringify0 silent_world two_calls_adapter (getAITools click_registry)
                click_registry)) =
       [\<lparr>msg_role = Assistant, msg_content = None,
         msg_tool_calls =
           Some [\<lparr>ref_id = ''call_1'', ref_type = ''function'',
                   ref_function = \<lparr>fn_name = ''nav_click'', fn_arguments = ''{}''\<rparr>\<rparr>,
                 \<lparr>ref_id = ''call_2'', ref_type = ''function'',
                   ref_function = \<lparr>fn_name = ''nav_click'', fn_arguments = ''{}''\<rparr>\<rparr>],
         msg_tool_call_id = None\<rparr>]"
  by code_simp

section \<open>Tool messages in the request of the Anthropic adapter\<close>

lemma anthropic_message_role: "am_role (anthropic_message_of m) = msg_role m"
  by (simp add: anthropic_message_of_def)

text \<open>
  Claim C9 does not hold of the code. For a history with a tool call and its result, the
  Anthropic adapter passes the tool message on with the role \<open>tool\<close> and without its
  call id; the OpenAI adapter, for the same history, builds the tool message keyed by
  the call id.
\<close>

theorem C9_anthropic_forwards_tool_role:
  "ar_messages (anthropic_request_of tool_history [] ''sys'') =
     [\<lparr>am_role = User, am_content = ''list files''\<rparr>,
      \<lparr>am_role = Assistant, am_content = []\<rparr>,
      \<lparr>am_role = Tool, am_content = ''a.txt''\<rparr>]
   \<and> or_messages (openai_request_of ''gpt-4'' tool_history [] ''sys'') ! 3 =
       ToolMessage ''a.txt'' (Some ''call_1'')"
  by code_simp


end
